theory Spec2Isabelle
  imports Main "HOL-Library.AList"
begin

section \<open>Slot scheduling and symptom records of the care repository\<close>

text \<open>
  The development embeds two source files:
  \<^item> \<^verbatim>\<open>care/emr/api/viewsets/scheduling/availability.py\<close>: the expansion of weekly
    availabilities into slots (\<^verbatim>\<open>convert_availability_to_slots\<close>), the day query
    (\<^verbatim>\<open>get_slots_for_day_handler\<close>) and the booking path
    (\<^verbatim>\<open>lock_create_appointment\<close>, \<^verbatim>\<open>create_appointment_handler\<close>);
  \<^item> \<^verbatim>\<open>care/facility/models/consultation_symptom.py\<close>: the guard of
    \<^verbatim>\<open>ConsultationSymptom.save\<close>.
\<close>

subsection \<open>Dates and times\<close>

text \<open>
  A date is its proleptic Gregorian ordinal (Python's \<^verbatim>\<open>date.toordinal()\<close>), a time of
  day is a number of seconds in \<open>[0, 86400)\<close>, and a naive datetime as returned by
  \<^verbatim>\<open>dateutil.parser.parse\<close> is a number of seconds counted from the midnight that
  starts the day the parser fills in; it may lie outside that day. All values are
  Python integers of unbounded size. Fractions of a second and the finite range of
  \<^verbatim>\<open>datetime\<close> (years 1 to 9999) are not represented.
\<close>

type_synonym date = int
type_synonym time = int
type_synonym datetime = "date \<times> time"

text \<open>\<^verbatim>\<open>datetime.timedelta(minutes=m)\<close>, in seconds.\<close>

definition timedelta_minutes :: "int \<Rightarrow> int" where
  "timedelta_minutes m = 60 * m"

text \<open>\<^verbatim>\<open>dt.time()\<close> of a parsed datetime: the time of day, the date dropped.\<close>

definition time_of :: "int \<Rightarrow> time" where
  "time_of dt = dt mod 86400"

text \<open>\<^verbatim>\<open>d.weekday()\<close>: Monday is 0; ordinal 1 is a Monday.\<close>

definition weekday :: "date \<Rightarrow> int" where
  "weekday d = (d + 6) mod 7"

text \<open>
  \<^verbatim>\<open>str(t)\<close> of a \<^verbatim>\<open>datetime.time\<close> with no microseconds and no time zone:
  \<^verbatim>\<open>HH:MM:SS\<close>.
\<close>

definition two_digits :: "nat \<Rightarrow> string" where
  "two_digits n = [''0123456789'' ! (n div 10), ''0123456789'' ! (n mod 10)]"

definition time_str :: "time \<Rightarrow> string" where
  "time_str t =
     two_digits (nat (t div 3600)) @ '':'' @ two_digits (nat (t mod 3600 div 60)) @ '':'' @
     two_digits (nat (t mod 60))"

subsection \<open>Expansion of availabilities into slots\<close>

text \<open>
  One entry of an availability's weekly recurrence, as stored in its JSON field. The two
  time fields hold what \<^verbatim>\<open>parse\<close> returns for the stored strings.
\<close>

record day_availability =
  day_of_week :: int
  start_time :: int
  end_time :: int

text \<open>
  The dictionary that \<^verbatim>\<open>get_slots_for_day_handler\<close> appends to
  \<^verbatim>\<open>calculated_dow_availabilities\<close> for each matching recurrence entry.
\<close>

record calculated_availability =
  availability :: day_availability
  slot_size_in_minutes :: int
  availability_id :: nat

text \<open>The value that \<^verbatim>\<open>convert_availability_to_slots\<close> stores under a slot key.\<close>

record slot =
  slot_start_time :: time
  slot_end_time :: time
  slot_availability_id :: nat

text \<open>
  The dictionary \<^verbatim>\<open>slots\<close> is an association list in insertion order: assigning to a
  key that is present replaces its value in place, assigning to a new key appends, as
  \<^const>\<open>AList.update\<close> does; \<^verbatim>\<open>pop\<close> is \<^const>\<open>AList.delete\<close>.
\<close>

type_synonym slots = "(string \<times> slot) list"

text \<open>The key \<^verbatim>\<open>f"{start}-{end}"\<close> of two times of day.\<close>

definition slot_key :: "time \<Rightarrow> time \<Rightarrow> string" where
  "slot_key s e = time_str s @ ''-'' @ time_str e"

text \<open>
  The body of the \<^verbatim>\<open>while\<close> loop after the failsafe test: one assignment into
  \<^verbatim>\<open>slots\<close>.
\<close>

definition store_slot :: "int \<Rightarrow> nat \<Rightarrow> int \<Rightarrow> slots \<Rightarrow> slots" where
  "store_slot size_in_minutes av_id current_time slots =
     AList.update
       (slot_key (time_of current_time)
          (time_of (current_time + timedelta_minutes size_in_minutes)))
       \<lparr>slot_start_time = time_of current_time,
        slot_end_time = time_of (current_time + timedelta_minutes size_in_minutes),
        slot_availability_id = av_id\<rparr>
       slots"

text \<open>
  The \<^verbatim>\<open>while current_time < end_time\<close> loop with its counter \<^verbatim>\<open>i\<close>. The counter is
  incremented first and the loop is left when it reaches 30, before the assignment.
  For a counter above 29 and a slot size that is not positive the loop does not end, so
  the function is partial: \<open>None\<close> is a loop that never returns. The arguments are the
  locals \<^verbatim>\<open>end_time\<close>, \<^verbatim>\<open>slot_size_in_minutes\<close>, \<^verbatim>\<open>availability_id\<close>,
  \<^verbatim>\<open>current_time\<close>, \<^verbatim>\<open>i\<close> and \<^verbatim>\<open>slots\<close>.
\<close>

partial_function (option) while_loop ::
  "int \<Rightarrow> int \<Rightarrow> nat \<Rightarrow> int \<Rightarrow> nat \<Rightarrow> slots \<Rightarrow> slots option" where
  "while_loop until size_in_minutes av_id current_time i slots =
     (if current_time < until then
        (if i + 1 = 30 then Some slots
         else while_loop until size_in_minutes av_id
                (current_time + timedelta_minutes size_in_minutes) (i + 1)
                (store_slot size_in_minutes av_id current_time slots))
      else Some slots)"

declare while_loop.simps [code]

text \<open>The \<^verbatim>\<open>for availability in availabilities\<close> loop around it.\<close>

fun for_availabilities :: "calculated_availability list \<Rightarrow> slots \<Rightarrow> slots option" where
  "for_availabilities [] slots = Some slots"
| "for_availabilities (a # rest) slots =
     (case while_loop (end_time (availability a)) (slot_size_in_minutes a)
             (availability_id a) (start_time (availability a)) 0 slots of
        None \<Rightarrow> None
      | Some slots' \<Rightarrow> for_availabilities rest slots')"

definition convert_availability_to_slots :: "calculated_availability list \<Rightarrow> slots option" where
  "convert_availability_to_slots availabilities = for_availabilities availabilities []"

subsection \<open>The stored tables\<close>

text \<open>
  The rows the two handlers read and write. Primary keys are natural numbers, external
  identifiers (UUIDs) are strings. A foreign key is the key of the row it refers to. The
  schedule of an availability is stored with it: the query only reads the schedule's
  validity dates and its resource through the join.
\<close>

record user =
  user_id :: nat
  user_external_id :: string

record patient_registration =
  patient_id :: nat
  patient_external_id :: string

record schedulable_resource =
  sr_id :: nat
  sr_facility_external_id :: string
  sr_resource_id :: nat
  sr_resource_type :: string

record schedule =
  valid_from :: date
  valid_to :: date
  schedule_resource :: nat

record availability_row =
  av_id :: nat
  av_slot_type :: string
  av_schedule :: schedule
  av_slot_size_in_minutes :: int
  av_tokens_per_slot :: int
  av_availability :: "day_availability list"

text \<open>
  A \<^verbatim>\<open>TokenSlot\<close> row. Its datetimes are a date and a time of day in UTC: the handler
  builds them with \<^verbatim>\<open>datetime.combine(day, time, tzinfo=timezone.now().tzinfo)\<close>, and the
  time zone of \<^verbatim>\<open>timezone.now()\<close> is UTC; a row read back carries its datetimes in UTC
  too, so \<^verbatim>\<open>.time()\<close> of a stored datetime is the time of day it was built with.
\<close>

record token_slot =
  ts_id :: nat
  ts_resource :: nat
  start_datetime :: datetime
  end_datetime :: datetime
  ts_availability_id :: nat
  allocated :: int

record token_booking =
  tb_id :: nat
  tb_token_slot :: nat
  tb_patient :: nat
  booked_by :: nat
  reason_for_visit :: string
  status :: string

record db =
  users :: "user list"
  patients :: "patient_registration list"
  schedulable_resources :: "schedulable_resource list"
  availabilities :: "availability_row list"
  token_slots :: "token_slot list"
  token_bookings :: "token_booking list"

text \<open>The exceptions the two files raise or let through.\<close>

datatype error =
  ValidationError string
  | DoesNotExist
  | Http404
  | ValueError string

text \<open>A primary key for a new row: above every key in use.\<close>

definition new_id :: "nat list \<Rightarrow> nat" where
  "new_id ids = Suc (fold max ids 0)"

text \<open>
  Modelled from the spec: the model class \<^verbatim>\<open>TokenSlot\<close> is not part of the sources; a
  slot is constructed with \<open>allocated = 0\<close>, the fields the handler passes, and a new key.
\<close>

definition TokenSlot_create ::
  "token_slot list \<Rightarrow> nat \<Rightarrow> datetime \<Rightarrow> datetime \<Rightarrow> nat \<Rightarrow> token_slot list" where
  "TokenSlot_create rows res start_dt end_dt av =
     rows @ [\<lparr>ts_id = new_id (map ts_id rows), ts_resource = res, start_datetime = start_dt,
              end_datetime = end_dt, ts_availability_id = av, allocated = 0\<rparr>]"

text \<open>
  Modelled from the spec: the enumeration \<^verbatim>\<open>SlotTypeOptions\<close> is not part of the
  sources; only availabilities of slot type \<^verbatim>\<open>appointment\<close> take part.
\<close>

definition SlotTypeOptions_appointment :: string where
  "SlotTypeOptions_appointment = ''appointment''"

subsection \<open>The day query\<close>

text \<open>The validated request body \<^verbatim>\<open>SlotsForDayRequestSpec\<close>.\<close>

record slots_for_day_request =
  resource :: string
  resource_type :: string
  day :: date

text \<open>
  The lookup \<^verbatim>\<open>__date\<close> of a stored datetime: its date in the current time zone, the
  time zone of the settings unless another one is activated. The current time zone is
  given by its offset from UTC in seconds (19800 for Asia/Kolkata, 0 for UTC), taken as
  constant over the days concerned. With time zone support switched off no conversion
  takes place, which is the offset 0.
\<close>

definition local_date :: "int \<Rightarrow> datetime \<Rightarrow> date" where
  "local_date tz dt = fst dt + (snd dt + tz) div 86400"

text \<open>
  The rows of \<^verbatim>\<open>TokenSlot.objects.filter(start_datetime__date=day,
  end_datetime__date=day, resource=schedulable_resource_obj)\<close>.
\<close>

definition slots_of_day :: "int \<Rightarrow> token_slot list \<Rightarrow> date \<Rightarrow> nat \<Rightarrow> token_slot list" where
  "slots_of_day tz rows d res =
     filter (\<lambda>s. local_date tz (start_datetime s) = d \<and> local_date tz (end_datetime s) = d \<and>
                ts_resource s = res)
       rows"

text \<open>
  The loop over \<^verbatim>\<open>created_slots\<close>: a slot already stored removes the entry of its key
  from \<^verbatim>\<open>slots\<close> when that entry has the slot's availability.
  \<^verbatim>\<open>slot.availability.id\<close> is the value of the foreign key.
\<close>

fun remove_created_slots :: "token_slot list \<Rightarrow> slots \<Rightarrow> slots" where
  "remove_created_slots [] slots = slots"
| "remove_created_slots (s # created_slots) slots =
     remove_created_slots created_slots
       (let slot_key' = slot_key (snd (start_datetime s)) (snd (end_datetime s)) in
        case map_of slots slot_key' of
          None \<Rightarrow> slots
        | Some entry \<Rightarrow>
            if slot_availability_id entry = ts_availability_id s
            then AList.delete slot_key' slots else slots)"

text \<open>
  The loop \<^verbatim>\<open>for _slot in slots\<close> that creates a row for every remaining entry. It
  visits the keys in insertion order; the keys of a dictionary are distinct, so
  \<^verbatim>\<open>slots[_slot]\<close> is the entry listed with the key.
\<close>

fun create_remaining_slots :: "nat \<Rightarrow> date \<Rightarrow> slots \<Rightarrow> token_slot list \<Rightarrow> token_slot list" where
  "create_remaining_slots res d [] rows = rows"
| "create_remaining_slots res d ((k, entry) # rest) rows =
     create_remaining_slots res d rest
       (TokenSlot_create rows res (d, slot_start_time entry) (d, slot_end_time entry)
          (slot_availability_id entry))"

text \<open>
  The two nested loops that collect \<^verbatim>\<open>calculated_dow_availabilities\<close> from the
  availabilities selected for the day.
\<close>

definition calculated_dow_availabilities ::
  "availability_row list \<Rightarrow> date \<Rightarrow> calculated_availability list" where
  "calculated_dow_availabilities avs d =
     concat (map (\<lambda>schedule_availability.
       map (\<lambda>day_availability.
             \<lparr>availability = day_availability,
              slot_size_in_minutes = av_slot_size_in_minutes schedule_availability,
              availability_id = av_id schedule_availability\<rparr>)
         (filter (\<lambda>day_availability. day_of_week day_availability = weekday d)
            (av_availability schedule_availability)))
       avs)"

text \<open>
  \<^verbatim>\<open>get_slots_for_day_handler\<close>. Its first argument is the offset of the current time
  zone, in which the two queries for the slots of the day are evaluated. The result is
  the new state of the tables and either the exception raised or the rows returned in the
  response; \<open>None\<close> is a call that does not return. The \<^verbatim>\<open>.first()\<close> of a query is
  the first matching row.
\<close>

definition get_slots_for_day_handler ::
  "int \<Rightarrow> db \<Rightarrow> string \<Rightarrow> slots_for_day_request \<Rightarrow>
   (db \<times> (error + token_slot list)) option" where
  "get_slots_for_day_handler tz st facility request_data =
     (case find (\<lambda>u. user_external_id u = resource request_data) (users st) of
        None \<Rightarrow> Some (st, Inl (ValidationError ''Resource does not exist''))
      | Some usr \<Rightarrow>
     (case find (\<lambda>r. sr_facility_external_id r = facility \<and> sr_resource_id r = user_id usr \<and>
                     sr_resource_type r = resource_type request_data)
             (schedulable_resources st) of
        None \<Rightarrow> Some (st, Inl (ValidationError ''Resource is not schedulable''))
      | Some schedulable_resource_obj \<Rightarrow>
     (case convert_availability_to_slots
             (calculated_dow_availabilities
                (filter (\<lambda>a. av_slot_type a = SlotTypeOptions_appointment \<and>
                              valid_from (av_schedule a) \<le> day request_data \<and>
                              valid_to (av_schedule a) \<ge> day request_data \<and>
                              schedule_resource (av_schedule a) = sr_id schedulable_resource_obj)
                   (availabilities st))
                (day request_data)) of
        None \<Rightarrow> None
      | Some slots \<Rightarrow>
          let created_slots =
                slots_of_day tz (token_slots st) (day request_data)
                  (sr_id schedulable_resource_obj);
              remaining = remove_created_slots created_slots slots;
              st' = st\<lparr>token_slots :=
                      create_remaining_slots (sr_id schedulable_resource_obj) (day request_data)
                        remaining (token_slots st)\<rparr>
          in Some (st', Inr (slots_of_day tz (token_slots st') (day request_data)
                              (sr_id schedulable_resource_obj))))))"

subsection \<open>Booking\<close>

text \<open>The validated request body \<^verbatim>\<open>AppointmentBookingSpec\<close>.\<close>

record appointment_booking_spec =
  patient :: string
  booking_reason_for_visit :: string

text \<open>
  \<^verbatim>\<open>token_slot.save()\<close>: the row with the object's key is overwritten with the object's
  fields, and the object is inserted when no row has its key.
\<close>

definition save_token_slot :: "token_slot \<Rightarrow> token_slot list \<Rightarrow> token_slot list" where
  "save_token_slot obj rows =
     (if ts_id obj \<in> set (map ts_id rows)
      then map (\<lambda>r. if ts_id r = ts_id obj then obj else r) rows
      else rows @ [obj])"

text \<open>
  \<^verbatim>\<open>lock_create_appointment\<close>. The body runs under the lock of the slot's resource and
  inside one transaction, so it is one step on the tables. Its argument
  \<^verbatim>\<open>token_slot\<close> is the object the caller holds in memory: the test reads the object's
  \<^verbatim>\<open>allocated\<close>, the increment changes the object, and \<^verbatim>\<open>save\<close> writes the object to
  its row. \<^verbatim>\<open>token_slot.availability\<close> follows the foreign key into the table of
  availabilities. The key of the lock is built from \<^verbatim>\<open>token_slot.resource.id\<close>, the
  value of the slot's foreign key to its resource. The result is the tables, the object,
  and the exception or the booking.
\<close>

definition lock_create_appointment ::
  "db \<Rightarrow> token_slot \<Rightarrow> patient_registration \<Rightarrow> user \<Rightarrow> string \<Rightarrow>
   db \<times> token_slot \<times> (error + token_booking)" where
  "lock_create_appointment st obj pat created_by reason =
     (case find (\<lambda>a. av_id a = ts_availability_id obj) (availabilities st) of
        None \<Rightarrow> (st, obj, Inl DoesNotExist)
      | Some av \<Rightarrow>
          if allocated obj \<ge> av_tokens_per_slot av
          then (st, obj, Inl (ValidationError ''Slot is already full''))
          else
            let obj' = obj\<lparr>allocated := allocated obj + 1\<rparr>;
                booking = \<lparr>tb_id = new_id (map tb_id (token_bookings st)),
                           tb_token_slot = ts_id obj', tb_patient = patient_id pat,
                           booked_by = user_id created_by, reason_for_visit = reason,
                           status = ''booked''\<rparr>
            in (st\<lparr>token_slots := save_token_slot obj' (token_slots st),
                    token_bookings := token_bookings st @ [booking]\<rparr>,
                obj', Inr booking))"

text \<open>
  \<^verbatim>\<open>create_appointment_handler\<close>: the patient is looked up before the lock is taken.
  The code raises the message inside a one-element set; the error here carries the
  message itself.
\<close>

definition create_appointment_handler ::
  "db \<Rightarrow> token_slot \<Rightarrow> appointment_booking_spec \<Rightarrow> user \<Rightarrow>
   db \<times> token_slot \<times> (error + token_booking)" where
  "create_appointment_handler st obj request_data usr =
     (case find (\<lambda>p. patient_external_id p = patient request_data) (patients st) of
        None \<Rightarrow> (st, obj, Inl (ValidationError ''Patient not found''))
      | Some pat \<Rightarrow>
          lock_create_appointment st obj pat usr (booking_reason_for_visit request_data))"

text \<open>
  Modelled from the spec: \<^verbatim>\<open>get_object\<close> of the view set's base class is not part of
  the sources; it resolves the slot identifier of the request to the stored slot, read
  from the table when it is called.
\<close>

definition get_object :: "db \<Rightarrow> nat \<Rightarrow> token_slot option" where
  "get_object st slot_id = find (\<lambda>s. ts_id s = slot_id) (token_slots st)"

text \<open>
  \<^verbatim>\<open>create_appointment\<close>, run with no other request in between: the slot is read with
  \<^verbatim>\<open>get_object\<close> and handed to the handler.
\<close>

definition create_appointment ::
  "db \<Rightarrow> nat \<Rightarrow> appointment_booking_spec \<Rightarrow> user \<Rightarrow> db \<times> (error + token_booking)" where
  "create_appointment st slot_id request_data usr =
     (case get_object st slot_id of
        None \<Rightarrow> (st, Inl Http404)
      | Some obj \<Rightarrow>
          (case create_appointment_handler st obj request_data usr of
             (st', obj', r) \<Rightarrow> (st', r)))"

subsection \<open>Consultation symptoms\<close>

text \<open>The integer choices \<^verbatim>\<open>Symptom\<close> and their values.\<close>

datatype Symptom =
  OTHERS | FEVER | SORE_THROAT | COUGH | BREATHLESSNESS | MYALGIA | ABDOMINAL_DISCOMFORT
  | VOMITING | SPUTUM | NAUSEA | CHEST_PAIN | HEMOPTYSIS | NASAL_DISCHARGE | BODY_ACHE
  | DIARRHOEA | PAIN | PEDAL_EDEMA | WOUND | CONSTIPATION | HEADACHE | BLEEDING | DIZZINESS
  | CHILLS | GENERAL_WEAKNESS | IRRITABILITY | CONFUSION | ABDOMINAL_PAIN | JOINT_PAIN
  | REDNESS_OF_EYES | ANOREXIA | NEW_LOSS_OF_TASTE | NEW_LOSS_OF_SMELL

fun Symptom_value :: "Symptom \<Rightarrow> int" where
  "Symptom_value OTHERS = 9"
| "Symptom_value FEVER = 2"
| "Symptom_value SORE_THROAT = 3"
| "Symptom_value COUGH = 4"
| "Symptom_value BREATHLESSNESS = 5"
| "Symptom_value MYALGIA = 6"
| "Symptom_value ABDOMINAL_DISCOMFORT = 7"
| "Symptom_value VOMITING = 8"
| "Symptom_value SPUTUM = 11"
| "Symptom_value NAUSEA = 12"
| "Symptom_value CHEST_PAIN = 13"
| "Symptom_value HEMOPTYSIS = 14"
| "Symptom_value NASAL_DISCHARGE = 15"
| "Symptom_value BODY_ACHE = 16"
| "Symptom_value DIARRHOEA = 17"
| "Symptom_value PAIN = 18"
| "Symptom_value PEDAL_EDEMA = 19"
| "Symptom_value WOUND = 20"
| "Symptom_value CONSTIPATION = 21"
| "Symptom_value HEADACHE = 22"
| "Symptom_value BLEEDING = 23"
| "Symptom_value DIZZINESS = 24"
| "Symptom_value CHILLS = 25"
| "Symptom_value GENERAL_WEAKNESS = 26"
| "Symptom_value IRRITABILITY = 27"
| "Symptom_value CONFUSION = 28"
| "Symptom_value ABDOMINAL_PAIN = 29"
| "Symptom_value JOINT_PAIN = 30"
| "Symptom_value REDNESS_OF_EYES = 31"
| "Symptom_value ANOREXIA = 32"
| "Symptom_value NEW_LOSS_OF_TASTE = 33"
| "Symptom_value NEW_LOSS_OF_SMELL = 34"

text \<open>
  A \<^verbatim>\<open>ConsultationSymptom\<close> object with the two fields \<^verbatim>\<open>save\<close> reads. The field
  \<^verbatim>\<open>symptom\<close> is a small integer; the key is \<open>None\<close> until the object has been stored.
\<close>

record consultation_symptom =
  cs_id :: "nat option"
  symptom :: int
  other_symptom :: string

text \<open>
  \<^verbatim>\<open>super().save()\<close>, the save of a stored model: an object without a key is inserted
  under a new key, an object with a key overwrites the row of that key, and is inserted
  when there is none. The result is the table and the object.
\<close>

definition Model_save ::
  "consultation_symptom list \<Rightarrow> consultation_symptom \<Rightarrow>
   consultation_symptom list \<times> consultation_symptom" where
  "Model_save rows obj =
     (case cs_id obj of
        None \<Rightarrow>
          (let obj' = obj\<lparr>cs_id := Some (new_id (concat (map (\<lambda>r. case cs_id r of None \<Rightarrow> []
                                                                | Some k \<Rightarrow> [k]) rows)))\<rparr>
           in (rows @ [obj'], obj'))
      | Some k \<Rightarrow>
          if Some k \<in> set (map cs_id rows)
          then (map (\<lambda>r. if cs_id r = Some k then obj else r) rows, obj)
          else (rows @ [obj], obj))"

text \<open>\<^verbatim>\<open>ConsultationSymptom.save\<close>; an empty string is false.\<close>

definition ConsultationSymptom_save ::
  "consultation_symptom list \<Rightarrow> consultation_symptom \<Rightarrow>
   consultation_symptom list \<times> (error + consultation_symptom)" where
  "ConsultationSymptom_save rows obj =
     (if other_symptom obj \<noteq> [] \<and> symptom obj \<noteq> Symptom_value OTHERS
      then (rows, Inl (ValueError ''Other Symptom should be empty when Symptom is not OTHERS''))
      else (case Model_save rows obj of (rows', obj') \<Rightarrow> (rows', Inr obj')))"

text \<open>
  A sequence of saves on a table; a save that raises leaves the table as it is and the
  next one goes on.
\<close>

fun save_each ::
  "consultation_symptom list \<Rightarrow> consultation_symptom list \<Rightarrow> consultation_symptom list" where
  "save_each rows [] = rows"
| "save_each rows (obj # objs) = save_each (fst (ConsultationSymptom_save rows obj)) objs"

subsection \<open>The iterations of the expansion loop\<close>

text \<open>
  The values of \<^verbatim>\<open>current_time\<close> at which the loop, with \<open>n\<close> iterations left before
  the failsafe, stores a slot.
\<close>

fun loop_starts :: "nat \<Rightarrow> int \<Rightarrow> int \<Rightarrow> int \<Rightarrow> int list" where
  "loop_starts 0 until size_in_minutes current_time = []"
| "loop_starts (Suc n) until size_in_minutes current_time =
     (if current_time < until
      then current_time #
           loop_starts n until size_in_minutes (current_time + timedelta_minutes size_in_minutes)
      else [])"

text \<open>
  What the loop does for one availability when it starts with \<^verbatim>\<open>i = 0\<close>: the
  assignments at the start times above, and the keys they write.
\<close>

definition window_slots :: "calculated_availability \<Rightarrow> slots \<Rightarrow> slots" where
  "window_slots a slots =
     fold (store_slot (slot_size_in_minutes a) (availability_id a))
       (loop_starts 29 (end_time (availability a)) (slot_size_in_minutes a)
          (start_time (availability a)))
       slots"

definition window_keys :: "calculated_availability \<Rightarrow> string set" where
  "window_keys a =
     (\<lambda>c. slot_key (time_of c) (time_of (c + timedelta_minutes (slot_size_in_minutes a)))) `
       set (loop_starts 29 (end_time (availability a)) (slot_size_in_minutes a)
              (start_time (availability a)))"

section \<open>Properties of the expansion\<close>

subsection \<open>The loop returns\<close>

lemma while_loop_unroll:
  "i + n = 29 \<Longrightarrow>
   while_loop until sz av c i slots =
     Some (fold (store_slot sz av) (loop_starts n until sz c) slots)"
proof (induction n arbitrary: i c slots)
  case 0
  then show ?case by (subst while_loop.simps) simp
next
  case (Suc n)
  from Suc.prems have "i + 1 \<noteq> 30" by simp
  moreover from Suc.prems have "(i + 1) + n = 29" by simp
  ultimately show ?case
    using Suc.IH [of "i + 1"] by (subst while_loop.simps) simp
qed

lemma loop_starts_length: "length (loop_starts n until sz c) \<le> n"
  by (induction n arbitrary: c) auto

lemma loop_starts_map:
  "loop_starts n until sz c =
     map (\<lambda>k. c + int k * timedelta_minutes sz) [0..<length (loop_starts n until sz c)]"
proof (induction n arbitrary: c)
  case 0
  then show ?case by simp
next
  case (Suc n)
  show ?case
  proof (cases "c < until")
    case True
    let ?m = "length (loop_starts n until sz (c + timedelta_minutes sz))"
    have "loop_starts n until sz (c + timedelta_minutes sz) =
       map (\<lambda>k. c + timedelta_minutes sz + int k * timedelta_minutes sz) [0..<?m]"
      using Suc.IH [of "c + timedelta_minutes sz"] by simp
    also have "\<dots> = map (\<lambda>k. c + int k * timedelta_minutes sz) (map Suc [0..<?m])"
      by (simp add: algebra_simps)
    finally have tl: "loop_starts n until sz (c + timedelta_minutes sz) =
        map (\<lambda>k. c + int k * timedelta_minutes sz) [Suc 0..<Suc ?m]"
      by (simp only: map_Suc_upt)
    have "[0..<Suc ?m] = 0 # [Suc 0..<Suc ?m]" by (simp add: upt_rec)
    with True tl show ?thesis by simp
  next
    case False
    then show ?thesis by simp
  qed
qed

lemma loop_starts_before:
  "k < length (loop_starts n until sz c) \<Longrightarrow> c + int k * timedelta_minutes sz < until"
proof (induction n arbitrary: c k)
  case 0
  then show ?case by simp
next
  case (Suc n)
  show ?case
  proof (cases k)
    case 0
    with Suc.prems show ?thesis by (simp split: if_splits)
  next
    case (Suc j)
    with Suc.prems have "c < until"
      and "j < length (loop_starts n until sz (c + timedelta_minutes sz))"
      by (simp_all split: if_splits)
    from Suc.IH [OF this(2)] Suc show ?thesis by (simp add: algebra_simps)
  qed
qed

lemma loop_starts_stop:
  "length (loop_starts n until sz c) < n \<Longrightarrow>
   \<not> c + int (length (loop_starts n until sz c)) * timedelta_minutes sz < until"
proof (induction n arbitrary: c)
  case 0
  then show ?case by simp
next
  case (Suc n)
  show ?case
  proof (cases "c < until")
    case True
    with Suc.prems have "length (loop_starts n until sz (c + timedelta_minutes sz)) < n"
      by simp
    from Suc.IH [OF this] True show ?thesis by (simp add: algebra_simps)
  next
    case False
    then show ?thesis by simp
  qed
qed

lemma loop_starts_full:
  assumes "0 \<le> timedelta_minutes sz" and "c + int n * timedelta_minutes sz < until"
  shows "length (loop_starts (Suc n) until sz c) = Suc n"
proof (rule ccontr)
  let ?m = "length (loop_starts (Suc n) until sz c)"
  assume "?m \<noteq> Suc n"
  with loop_starts_length [of "Suc n" until sz c] have m: "?m < Suc n" by simp
  then have stop: "\<not> c + int ?m * timedelta_minutes sz < until"
    by (rule loop_starts_stop)
  from m have "int ?m \<le> int n" by simp
  then have "int ?m * timedelta_minutes sz \<le> int n * timedelta_minutes sz"
    using assms(1) by (rule mult_right_mono)
  with assms(2) stop show False by simp
qed

text \<open>The expansion of one availability, and of a list of them, as folds.\<close>

lemma for_availabilities_fold:
  "for_availabilities avs slots =
     Some (fold (\<lambda>a. fold (store_slot (slot_size_in_minutes a) (availability_id a))
                       (loop_starts 29 (end_time (availability a)) (slot_size_in_minutes a)
                          (start_time (availability a))))
             avs slots)"
proof (induction avs arbitrary: slots)
  case Nil
  then show ?case by simp
next
  case (Cons a avs)
  have "while_loop (end_time (availability a)) (slot_size_in_minutes a) (availability_id a)
          (start_time (availability a)) 0 slots =
        Some (fold (store_slot (slot_size_in_minutes a) (availability_id a))
                (loop_starts 29 (end_time (availability a)) (slot_size_in_minutes a)
                   (start_time (availability a))) slots)"
    by (rule while_loop_unroll) simp
  with Cons.IH show ?case by simp
qed

lemma convert_single:
  "convert_availability_to_slots [a] =
     Some (fold (store_slot (slot_size_in_minutes a) (availability_id a))
             (loop_starts 29 (end_time (availability a)) (slot_size_in_minutes a)
                (start_time (availability a))) [])"
  by (simp add: convert_availability_to_slots_def for_availabilities_fold)

subsection \<open>Slot keys\<close>

lemma digit_inj:
  "a < 10 \<Longrightarrow> b < 10 \<Longrightarrow> ''0123456789'' ! a = ''0123456789'' ! b \<Longrightarrow> a = b"
proof -
  have "distinct ''0123456789''" by simp
  then show "a < 10 \<Longrightarrow> b < 10 \<Longrightarrow> ''0123456789'' ! a = ''0123456789'' ! b \<Longrightarrow> a = b"
    by (simp add: nth_eq_iff_index_eq)
qed

lemma two_digits_inj:
  assumes "n < 100" "m < 100" "two_digits n = two_digits m"
  shows "n = m"
proof -
  have "n div 10 < 10" "m div 10 < 10" "n mod 10 < 10" "m mod 10 < 10"
    using assms by simp_all
  moreover from assms(3) have "''0123456789'' ! (n div 10) = ''0123456789'' ! (m div 10)"
    and "''0123456789'' ! (n mod 10) = ''0123456789'' ! (m mod 10)"
    by (simp_all add: two_digits_def)
  ultimately have "n div 10 = m div 10" "n mod 10 = m mod 10"
    by (blast intro: digit_inj)+
  then show ?thesis by (metis div_mult_mod_eq)
qed

lemma length_two_digits: "length (two_digits n) = 2"
  by (simp add: two_digits_def)

lemma time_str_inj:
  assumes "0 \<le> s" "s < 86400" "0 \<le> t" "t < 86400" "time_str s = time_str t"
  shows "s = t"
proof -
  have eqs: "two_digits (nat (s div 3600)) = two_digits (nat (t div 3600))"
    "two_digits (nat (s mod 3600 div 60)) = two_digits (nat (t mod 3600 div 60))"
    "two_digits (nat (s mod 60)) = two_digits (nat (t mod 60))"
    using assms(5) by (simp_all add: time_str_def length_two_digits)
  have "nat (s div 3600) < 100" "nat (t div 3600) < 100"
    using assms(1-4) by linarith+
  with eqs(1) have "nat (s div 3600) = nat (t div 3600)" by (rule_tac two_digits_inj)
  moreover have "0 \<le> s div 3600" "0 \<le> t div 3600"
    using assms(1,3) by (simp_all add: pos_imp_zdiv_nonneg_iff)
  ultimately have h: "s div 3600 = t div 3600" by (simp add: eq_nat_nat_iff)
  have "nat (s mod 3600 div 60) < 100" "nat (t mod 3600 div 60) < 100" by simp_all
  with eqs(2) have "nat (s mod 3600 div 60) = nat (t mod 3600 div 60)"
    by (rule_tac two_digits_inj)
  moreover have "0 \<le> s mod 3600 div 60" "0 \<le> t mod 3600 div 60"
    by (simp_all add: pos_imp_zdiv_nonneg_iff)
  ultimately have m: "s mod 3600 div 60 = t mod 3600 div 60" by (simp add: eq_nat_nat_iff)
  have "nat (s mod 60) < 100" "nat (t mod 60) < 100" by simp_all
  with eqs(3) have "nat (s mod 60) = nat (t mod 60)" by (rule_tac two_digits_inj)
  then have c: "s mod 60 = t mod 60" by (simp add: eq_nat_nat_iff)
  have "s mod 3600 mod 60 = s mod 60" "t mod 3600 mod 60 = t mod 60"
    by (simp_all add: mod_mod_cancel)
  with m c have "s mod 3600 = t mod 3600"
    by (metis div_mult_mod_eq)
  with h show ?thesis by (metis div_mult_mod_eq)
qed

lemma length_time_str: "length (time_str t) = 8"
  by (simp add: time_str_def length_two_digits)

lemma time_of_range: "0 \<le> time_of dt" "time_of dt < 86400"
  by (simp_all add: time_of_def)

lemma slot_key_time_of_inj:
  assumes "slot_key (time_of s) (time_of t) = slot_key (time_of s') (time_of t')"
  shows "time_of s = time_of s'"
proof -
  from assms have "time_str (time_of s) = time_str (time_of s')"
    by (simp add: slot_key_def length_time_str)
  then show ?thesis by (intro time_str_inj time_of_range)
qed

lemma time_of_inj: "time_of x = time_of y \<Longrightarrow> 0 \<le> x - y \<Longrightarrow> x - y < 86400 \<Longrightarrow> x = y"
proof -
  assume a: "time_of x = time_of y" "0 \<le> x - y" "x - y < 86400"
  then have "86400 dvd x - y" by (simp add: time_of_def mod_eq_dvd_iff)
  with a(2,3) have "x - y = 0" by (metis zdvd_not_zless less_le)
  then show "x = y" by simp
qed

subsection \<open>The dictionary after a run of assignments\<close>

lemma map_of_store_slot:
  "map_of (store_slot sz av c slots) =
     (map_of slots)
       (slot_key (time_of c) (time_of (c + timedelta_minutes sz)) \<mapsto>
        \<lparr>slot_start_time = time_of c, slot_end_time = time_of (c + timedelta_minutes sz),
         slot_availability_id = av\<rparr>)"
  by (simp add: store_slot_def update_conv')

lemma distinct_store_slot:
  "distinct (map fst slots) \<Longrightarrow> distinct (map fst (store_slot sz av c slots))"
  by (simp add: store_slot_def distinct_update)

lemma distinct_fold_store_slot:
  "distinct (map fst slots) \<Longrightarrow> distinct (map fst (fold (store_slot sz av) cs slots))"
  by (induction cs arbitrary: slots) (simp_all add: distinct_store_slot)

lemma map_of_fold_store_slot_other:
  "k \<notin> (\<lambda>c. slot_key (time_of c) (time_of (c + timedelta_minutes sz))) ` set cs \<Longrightarrow>
   map_of (fold (store_slot sz av) cs slots) k = map_of slots k"
  by (induction cs arbitrary: slots) (simp_all add: map_of_store_slot)

lemma map_of_fold_store_slot_same:
  "k \<in> (\<lambda>c. slot_key (time_of c) (time_of (c + timedelta_minutes sz))) ` set cs \<Longrightarrow>
   map_of (fold (store_slot sz av) cs slots) k = map_of (fold (store_slot sz av) cs slots') k"
proof (induction cs arbitrary: slots slots')
  case Nil
  then show ?case by simp
next
  case (Cons c cs)
  show ?case
  proof (cases "k \<in> (\<lambda>c. slot_key (time_of c) (time_of (c + timedelta_minutes sz))) ` set cs")
    case True
    then show ?thesis using Cons.IH by simp
  next
    case False
    with Cons.prems have "k = slot_key (time_of c) (time_of (c + timedelta_minutes sz))"
      by auto
    with False show ?thesis
      by (simp add: map_of_fold_store_slot_other map_of_store_slot)
  qed
qed

lemma keys_fold_store_slot:
  "fst ` set (fold (store_slot sz av) cs slots) =
     fst ` set slots \<union> (\<lambda>c. slot_key (time_of c) (time_of (c + timedelta_minutes sz))) ` set cs"
proof (induction cs arbitrary: slots)
  case Nil
  then show ?case by simp
next
  case (Cons c cs)
  have "fst ` set (store_slot sz av c slots) =
      insert (slot_key (time_of c) (time_of (c + timedelta_minutes sz))) (fst ` set slots)"
    by (simp add: store_slot_def dom_update)
  with Cons.IH [of "store_slot sz av c slots"] show ?case by auto
qed

lemma set_update_subset: "set (AList.update k v al) \<subseteq> insert (k, v) (set al)"
  by (induction al) auto

lemma entries_store_slot:
  assumes "\<forall>(k, e) \<in> set slots. k = slot_key (slot_start_time e) (slot_end_time e)"
  shows "\<forall>(k, e) \<in> set (store_slot sz av c slots).
           k = slot_key (slot_start_time e) (slot_end_time e)"
proof -
  have "set (store_slot sz av c slots) \<subseteq>
      insert (slot_key (time_of c) (time_of (c + timedelta_minutes sz)),
              \<lparr>slot_start_time = time_of c, slot_end_time = time_of (c + timedelta_minutes sz),
               slot_availability_id = av\<rparr>) (set slots)"
    unfolding store_slot_def by (rule set_update_subset)
  with assms show ?thesis by auto
qed

lemma entries_fold_store_slot:
  "\<forall>(k, e) \<in> set slots. k = slot_key (slot_start_time e) (slot_end_time e) \<Longrightarrow>
   \<forall>(k, e) \<in> set (fold (store_slot sz av) cs slots).
      k = slot_key (slot_start_time e) (slot_end_time e)"
proof (induction cs arbitrary: slots)
  case Nil
  then show ?case by simp
next
  case (Cons c cs)
  from Cons.prems have "\<forall>(k, e) \<in> set (store_slot sz av c slots).
      k = slot_key (slot_start_time e) (slot_end_time e)"
    by (rule entries_store_slot)
  then show ?case using Cons.IH [of "store_slot sz av c slots"] by simp
qed

lemma update_new_key: "k \<notin> fst ` set al \<Longrightarrow> AList.update k v al = al @ [(k, v)]"
  by (induction al) auto

lemma fold_store_slot_distinct:
  assumes "distinct (map (\<lambda>c. slot_key (time_of c) (time_of (c + timedelta_minutes sz))) cs)"
    and "fst ` set slots \<inter>
         (\<lambda>c. slot_key (time_of c) (time_of (c + timedelta_minutes sz))) ` set cs = {}"
  shows "fold (store_slot sz av) cs slots =
     slots @ map (\<lambda>c. (slot_key (time_of c) (time_of (c + timedelta_minutes sz)),
                      \<lparr>slot_start_time = time_of c,
                       slot_end_time = time_of (c + timedelta_minutes sz),
                       slot_availability_id = av\<rparr>)) cs"
  using assms
proof (induction cs arbitrary: slots)
  case Nil
  then show ?case by simp
next
  case (Cons c cs)
  let ?k = "slot_key (time_of c) (time_of (c + timedelta_minutes sz))"
  let ?v = "\<lparr>slot_start_time = time_of c, slot_end_time = time_of (c + timedelta_minutes sz),
             slot_availability_id = av\<rparr>"
  from Cons.prems(2) have "?k \<notin> fst ` set slots" by auto
  then have st: "store_slot sz av c slots = slots @ [(?k, ?v)]"
    by (simp add: store_slot_def update_new_key)
  from Cons.prems have "distinct (map (\<lambda>c. slot_key (time_of c) (time_of (c + timedelta_minutes sz))) cs)"
    and "fst ` set (slots @ [(?k, ?v)]) \<inter>
         (\<lambda>c. slot_key (time_of c) (time_of (c + timedelta_minutes sz))) ` set cs = {}"
    by auto
  from Cons.IH [OF this] st show ?case by simp
qed

lemma window_gap:
  assumes "0 < (d::int)" and "int n * d \<le> 86400" and "a < n" and "b \<le> a"
  shows "0 \<le> (s + int a * d) - (s + int b * d)"
    and "(s + int a * d) - (s + int b * d) < 86400"
proof -
  have eq: "(s + int a * d) - (s + int b * d) = (int a - int b) * d"
    by (simp add: left_diff_distrib)
  from assms(4) have "0 \<le> int a - int b" by simp
  with assms(1) have "0 \<le> (int a - int b) * d" by simp
  with eq show "0 \<le> (s + int a * d) - (s + int b * d)" by simp
  have "int a - int b \<le> int a" by simp
  then have "(int a - int b) * d \<le> int a * d"
    using assms(1) by (intro mult_right_mono) simp_all
  moreover from assms(3) have "int a < int n" by simp
  then have "int a * d < int n * d"
    using assms(1) by (rule mult_strict_right_mono)
  ultimately have "(int a - int b) * d < 86400" using assms(2) by linarith
  with eq show "(s + int a * d) - (s + int b * d) < 86400" by simp
qed

lemma window_keys_inj:
  assumes "0 < d" and "int n * d \<le> 86400" and "i < n" and "j \<le> i"
    and "slot_key (time_of (s + int i * d)) (time_of (s + int i * d + d)) =
         slot_key (time_of (s + int j * d)) (time_of (s + int j * d + d))"
  shows "i = j"
proof -
  from assms(5) have "time_of (s + int i * d) = time_of (s + int j * d)"
    by (rule slot_key_time_of_inj)
  then have "s + int i * d = s + int j * d"
    using window_gap [OF assms(1-4)] by (rule time_of_inj)
  then have "int i * d = int j * d" by simp
  with assms(1) show ?thesis by simp
qed

lemma window_keys_distinct:
  assumes "0 < d" and "int n * d \<le> 86400"
  shows "distinct (map (\<lambda>c. slot_key (time_of c) (time_of (c + d)))
                     (map (\<lambda>k. s + int k * d) [0..<n]))"
proof -
  have "inj_on (\<lambda>k. slot_key (time_of (s + int k * d)) (time_of (s + int k * d + d))) {0..<n}"
  proof (rule inj_onI)
    fix i j
    assume i: "i \<in> {0..<n}" and j: "j \<in> {0..<n}"
      and eq: "slot_key (time_of (s + int i * d)) (time_of (s + int i * d + d)) =
               slot_key (time_of (s + int j * d)) (time_of (s + int j * d + d))"
    show "i = j"
    proof (cases "j \<le> i")
      case True
      from i have "i < n" by simp
      with assms show ?thesis using True eq by (rule window_keys_inj)
    next
      case False
      then have "i \<le> j" by simp
      moreover from j have "j < n" by simp
      ultimately have "j = i" using assms eq [symmetric] by (intro window_keys_inj [of d n j i s])
      then show ?thesis by simp
    qed
  qed
  then show ?thesis by (simp add: distinct_map comp_def)
qed

lemma convert_single_indexed:
  "convert_availability_to_slots [a] =
     Some (fold (\<lambda>k. store_slot (slot_size_in_minutes a) (availability_id a)
                       (start_time (availability a) +
                        int k * timedelta_minutes (slot_size_in_minutes a)))
             [0..<length (loop_starts 29 (end_time (availability a)) (slot_size_in_minutes a)
                            (start_time (availability a)))] [])"
proof -
  let ?cs = "loop_starts 29 (end_time (availability a)) (slot_size_in_minutes a)
               (start_time (availability a))"
  have "fold (store_slot (slot_size_in_minutes a) (availability_id a)) ?cs [] =
        fold (store_slot (slot_size_in_minutes a) (availability_id a))
          (map (\<lambda>k. start_time (availability a) +
                     int k * timedelta_minutes (slot_size_in_minutes a)) [0..<length ?cs]) []"
    using loop_starts_map [of 29 "end_time (availability a)" "slot_size_in_minutes a"
        "start_time (availability a)"] by simp
  then show ?thesis by (simp add: convert_single fold_map comp_def)
qed

lemma long_window_29:
  assumes "0 < slot_size_in_minutes a"
    and "30 * timedelta_minutes (slot_size_in_minutes a) <
         end_time (availability a) - start_time (availability a)"
  shows "length (loop_starts 29 (end_time (availability a)) (slot_size_in_minutes a)
                   (start_time (availability a))) = 29"
proof -
  from assms(1) have d: "0 \<le> timedelta_minutes (slot_size_in_minutes a)"
    by (simp add: timedelta_minutes_def)
  with assms(2) have "start_time (availability a) +
      int 28 * timedelta_minutes (slot_size_in_minutes a) < end_time (availability a)"
    by simp
  with d have "length (loop_starts (Suc 28) (end_time (availability a)) (slot_size_in_minutes a)
                   (start_time (availability a))) = Suc 28"
    by (rule loop_starts_full)
  then show ?thesis by simp
qed

lemma long_window_slots:
  assumes "0 < slot_size_in_minutes a"
    and "30 * timedelta_minutes (slot_size_in_minutes a) <
         end_time (availability a) - start_time (availability a)"
  shows "convert_availability_to_slots [a] =
     Some (fold (\<lambda>k. store_slot (slot_size_in_minutes a) (availability_id a)
                       (start_time (availability a) +
                        int k * timedelta_minutes (slot_size_in_minutes a)))
             [0..<29] [])"
  using convert_single_indexed [of a] long_window_29 [OF assms] by (simp only:)

lemma long_window_length:
  assumes "0 < slot_size_in_minutes a"
    and "30 * timedelta_minutes (slot_size_in_minutes a) <
         end_time (availability a) - start_time (availability a)"
    and "end_time (availability a) - start_time (availability a) \<le> 86400"
  shows "length (fold (\<lambda>k. store_slot (slot_size_in_minutes a) (availability_id a)
                       (start_time (availability a) +
                        int k * timedelta_minutes (slot_size_in_minutes a)))
             [0..<29] []) = 29"
proof -
  let ?d = "timedelta_minutes (slot_size_in_minutes a)"
  let ?cs = "map (\<lambda>k. start_time (availability a) + int k * ?d) [0..<29]"
  from assms(1) have d: "0 < ?d" by (simp add: timedelta_minutes_def)
  moreover from assms(2,3) d have "int 29 * ?d \<le> 86400" by simp
  ultimately have "distinct (map (\<lambda>c. slot_key (time_of c) (time_of (c + ?d))) ?cs)"
    by (rule window_keys_distinct)
  then have "fold (store_slot (slot_size_in_minutes a) (availability_id a)) ?cs [] =
     [] @ map (\<lambda>c. (slot_key (time_of c) (time_of (c + ?d)),
                      \<lparr>slot_start_time = time_of c, slot_end_time = time_of (c + ?d),
                       slot_availability_id = availability_id a\<rparr>)) ?cs"
    by (rule fold_store_slot_distinct) simp
  then have "length (fold (store_slot (slot_size_in_minutes a) (availability_id a)) ?cs []) = 29"
    by (simp only: append_Nil length_map length_upt diff_zero)
  then show ?thesis by (simp only: fold_map comp_def)
qed

text \<open>
  Claim C9. There is a window whose length is not a multiple of the slot size for which
  the expansion emits a last slot that ends after the window: for 09:00 to 09:30 with
  slots of 20 minutes the slots are 09:00 to 09:20 and 09:20 to 09:40, and 09:40 lies
  after the window's end 09:30.
\<close>

theorem expansion_overruns_window:
  "convert_availability_to_slots
     [\<lparr>availability = \<lparr>day_of_week = 0, start_time = 32400, end_time = 34200\<rparr>,
       slot_size_in_minutes = 20, availability_id = 1\<rparr>] =
   Some [(''09:00:00-09:20:00'',
           \<lparr>slot_start_time = 32400, slot_end_time = 33600, slot_availability_id = 1\<rparr>),
         (''09:20:00-09:40:00'',
           \<lparr>slot_start_time = 33600, slot_end_time = 34800, slot_availability_id = 1\<rparr>)]
   \<and> (34200 - 32400) mod timedelta_minutes 20 \<noteq> 0 \<and> (34200::int) < 34800"
  by (simp add: convert_availability_to_slots_def while_loop.simps store_slot_def slot_key_def
      time_str_def two_digits_def time_of_def timedelta_minutes_def)

subsection \<open>Several availabilities\<close>

lemma for_availabilities_window_slots:
  "for_availabilities avs slots = Some (fold window_slots avs slots)"
  unfolding window_slots_def by (rule for_availabilities_fold)

lemma convert_window_slots:
  "convert_availability_to_slots avs = Some (fold window_slots avs [])"
  by (simp add: convert_availability_to_slots_def for_availabilities_window_slots)

lemma keys_window_slots: "fst ` set (window_slots a slots) = fst ` set slots \<union> window_keys a"
  by (simp add: window_slots_def window_keys_def keys_fold_store_slot)

lemma keys_fold_window_slots:
  "fst ` set (fold window_slots avs slots) = fst ` set slots \<union> (\<Union>a\<in>set avs. window_keys a)"
  by (induction avs arbitrary: slots) (auto simp: keys_window_slots)

lemma map_of_window_slots_other:
  "k \<notin> window_keys a \<Longrightarrow> map_of (window_slots a slots) k = map_of slots k"
  unfolding window_slots_def window_keys_def by (rule map_of_fold_store_slot_other)

lemma map_of_window_slots_same:
  "k \<in> window_keys a \<Longrightarrow> map_of (window_slots a slots) k = map_of (window_slots a slots') k"
  unfolding window_slots_def window_keys_def by (rule map_of_fold_store_slot_same)

lemma map_of_fold_window_slots_other:
  "\<forall>a\<in>set avs. k \<notin> window_keys a \<Longrightarrow> map_of (fold window_slots avs slots) k = map_of slots k"
  by (induction avs arbitrary: slots) (simp_all add: map_of_window_slots_other)

lemma availability_fold_store_slot:
  "\<forall>(k, e) \<in> set slots. slot_availability_id e = av \<Longrightarrow>
   \<forall>(k, e) \<in> set (fold (store_slot sz av) cs slots). slot_availability_id e = av"
proof (induction cs arbitrary: slots)
  case Nil
  then show ?case by simp
next
  case (Cons c cs)
  have "set (store_slot sz av c slots) \<subseteq>
      insert (slot_key (time_of c) (time_of (c + timedelta_minutes sz)),
              \<lparr>slot_start_time = time_of c, slot_end_time = time_of (c + timedelta_minutes sz),
               slot_availability_id = av\<rparr>) (set slots)"
    unfolding store_slot_def by (rule set_update_subset)
  with Cons.prems have "\<forall>(k, e) \<in> set (store_slot sz av c slots). slot_availability_id e = av"
    by auto
  then show ?case using Cons.IH [of "store_slot sz av c slots"] by simp
qed

lemma availability_window_slots:
  "(k, e) \<in> set (window_slots a []) \<Longrightarrow> slot_availability_id e = availability_id a"
  using availability_fold_store_slot [of "[]" "availability_id a"] 
  unfolding window_slots_def by fastforce

lemma distinct_window_slots:
  "distinct (map fst slots) \<Longrightarrow> distinct (map fst (window_slots a slots))"
  unfolding window_slots_def by (rule distinct_fold_store_slot)

lemma distinct_fold_window_slots:
  "distinct (map fst slots) \<Longrightarrow> distinct (map fst (fold window_slots avs slots))"
  by (induction avs arbitrary: slots) (simp_all add: distinct_window_slots)

lemma entries_fold_window_slots:
  "\<forall>(k, e) \<in> set slots. k = slot_key (slot_start_time e) (slot_end_time e) \<Longrightarrow>
   \<forall>(k, e) \<in> set (fold window_slots avs slots).
      k = slot_key (slot_start_time e) (slot_end_time e)"
proof (induction avs arbitrary: slots)
  case Nil
  then show ?case by simp
next
  case (Cons a avs)
  from Cons.prems have "\<forall>(k, e) \<in> set (window_slots a slots).
      k = slot_key (slot_start_time e) (slot_end_time e)"
    unfolding window_slots_def by (rule entries_fold_store_slot)
  then show ?case using Cons.IH [of "window_slots a slots"] by simp
qed

lemma convert_distinct:
  "convert_availability_to_slots avs = Some slots \<Longrightarrow> distinct (map fst slots)"
  using distinct_fold_window_slots [of "[]" avs] by (simp add: convert_window_slots)

lemma convert_entries:
  "convert_availability_to_slots avs = Some slots \<Longrightarrow> (k, e) \<in> set slots \<Longrightarrow>
   k = slot_key (slot_start_time e) (slot_end_time e)"
  using entries_fold_window_slots [of "[]" avs] by (auto simp: convert_window_slots)

section \<open>Claims about the expansion\<close>

text \<open>
  Claim C5, as the code has it. For one recurrence window the expansion stores
  consecutive slots of the slot size, the first at the window's start, as long as the
  start of the next slot lies before the window's end and fewer than 29 slots have been
  stored: the dictionary is the result of the assignments for the start times
  \<open>start + k * size\<close>, \<open>k < n\<close>, each slot running from its start to its start plus the
  slot size, each start before the end, with \<open>n \<le> 29\<close>, and when \<open>n < 29\<close> the next
  start is not before the end. For the window 09:00 to 10:00 with slots of 20 minutes
  the slots are 09:00 to 09:20, 09:20 to 09:40 and 09:40 to 10:00.
\<close>

theorem expansion_consecutive_slots:
  "(\<exists>n\<le>29.
      convert_availability_to_slots [a] =
        Some (fold (\<lambda>k. AList.update
                          (slot_key
                             (time_of (start_time (availability a) +
                                       int k * timedelta_minutes (slot_size_in_minutes a)))
                             (time_of (start_time (availability a) +
                                       int k * timedelta_minutes (slot_size_in_minutes a) +
                                       timedelta_minutes (slot_size_in_minutes a))))
                          \<lparr>slot_start_time =
                             time_of (start_time (availability a) +
                                      int k * timedelta_minutes (slot_size_in_minutes a)),
                           slot_end_time =
                             time_of (start_time (availability a) +
                                      int k * timedelta_minutes (slot_size_in_minutes a) +
                                      timedelta_minutes (slot_size_in_minutes a)),
                           slot_availability_id = availability_id a\<rparr>)
                [0..<n] []) \<and>
      (\<forall>k<n. start_time (availability a) + int k * timedelta_minutes (slot_size_in_minutes a)
              < end_time (availability a)) \<and>
      (n < 29 \<longrightarrow>
         \<not> start_time (availability a) + int n * timedelta_minutes (slot_size_in_minutes a)
           < end_time (availability a))) \<and>
   convert_availability_to_slots
     [\<lparr>availability = \<lparr>day_of_week = 0, start_time = 32400, end_time = 36000\<rparr>,
       slot_size_in_minutes = 20, availability_id = 1\<rparr>] =
   Some [(''09:00:00-09:20:00'',
           \<lparr>slot_start_time = 32400, slot_end_time = 33600, slot_availability_id = 1\<rparr>),
         (''09:20:00-09:40:00'',
           \<lparr>slot_start_time = 33600, slot_end_time = 34800, slot_availability_id = 1\<rparr>),
         (''09:40:00-10:00:00'',
           \<lparr>slot_start_time = 34800, slot_end_time = 36000, slot_availability_id = 1\<rparr>)]"
proof (rule conjI)
  let ?cs = "loop_starts 29 (end_time (availability a)) (slot_size_in_minutes a)
               (start_time (availability a))"
  have "length ?cs \<le> 29" by (rule loop_starts_length)
  moreover note convert_single_indexed [of a, unfolded store_slot_def]
  moreover have "\<forall>k<length ?cs.
      start_time (availability a) + int k * timedelta_minutes (slot_size_in_minutes a)
        < end_time (availability a)"
    by (simp add: loop_starts_before)
  moreover have "length ?cs < 29 \<longrightarrow>
      \<not> start_time (availability a) + int (length ?cs) * timedelta_minutes (slot_size_in_minutes a)
        < end_time (availability a)"
    using loop_starts_stop [of 29] by blast
  ultimately show "\<exists>n\<le>29.
      convert_availability_to_slots [a] =
        Some (fold (\<lambda>k. AList.update
                          (slot_key
                             (time_of (start_time (availability a) +
                                       int k * timedelta_minutes (slot_size_in_minutes a)))
                             (time_of (start_time (availability a) +
                                       int k * timedelta_minutes (slot_size_in_minutes a) +
                                       timedelta_minutes (slot_size_in_minutes a))))
                          \<lparr>slot_start_time =
                             time_of (start_time (availability a) +
                                      int k * timedelta_minutes (slot_size_in_minutes a)),
                           slot_end_time =
                             time_of (start_time (availability a) +
                                      int k * timedelta_minutes (slot_size_in_minutes a) +
                                      timedelta_minutes (slot_size_in_minutes a)),
                           slot_availability_id = availability_id a\<rparr>)
                [0..<n] []) \<and>
      (\<forall>k<n. start_time (availability a) + int k * timedelta_minutes (slot_size_in_minutes a)
              < end_time (availability a)) \<and>
      (n < 29 \<longrightarrow>
         \<not> start_time (availability a) + int n * timedelta_minutes (slot_size_in_minutes a)
           < end_time (availability a))"
    by blast
next
  show "convert_availability_to_slots
     [\<lparr>availability = \<lparr>day_of_week = 0, start_time = 32400, end_time = 36000\<rparr>,
       slot_size_in_minutes = 20, availability_id = 1\<rparr>] =
   Some [(''09:00:00-09:20:00'',
           \<lparr>slot_start_time = 32400, slot_end_time = 33600, slot_availability_id = 1\<rparr>),
         (''09:20:00-09:40:00'',
           \<lparr>slot_start_time = 33600, slot_end_time = 34800, slot_availability_id = 1\<rparr>),
         (''09:40:00-10:00:00'',
           \<lparr>slot_start_time = 34800, slot_end_time = 36000, slot_availability_id = 1\<rparr>)]"
    by (simp add: convert_availability_to_slots_def while_loop.simps store_slot_def slot_key_def
        time_str_def two_digits_def time_of_def timedelta_minutes_def)
qed

text \<open>
  For the window 14:00 to 15:00 of availability 5 with slots of 30 minutes the count is
  2 and the slots are 14:00 to 14:30 and 14:30 to 15:00.
\<close>

theorem expansion_consecutive_slots_witness:
  "convert_availability_to_slots
     [\<lparr>availability = \<lparr>day_of_week = 2, start_time = 50400, end_time = 54000\<rparr>,
       slot_size_in_minutes = 30, availability_id = 5\<rparr>] =
   Some [(''14:00:00-14:30:00'',
           \<lparr>slot_start_time = 50400, slot_end_time = 52200, slot_availability_id = 5\<rparr>),
         (''14:30:00-15:00:00'',
           \<lparr>slot_start_time = 52200, slot_end_time = 54000, slot_availability_id = 5\<rparr>)]"
proof -
  let ?a = "\<lparr>availability = \<lparr>day_of_week = 2, start_time = 50400, end_time = 54000\<rparr>,
             slot_size_in_minutes = 30, availability_id = 5\<rparr>"
  from expansion_consecutive_slots [of ?a] obtain n where
    conv: "convert_availability_to_slots [?a] =
        Some (fold (\<lambda>k. AList.update
                          (slot_key
                             (time_of (start_time (availability ?a) +
                                       int k * timedelta_minutes (slot_size_in_minutes ?a)))
                             (time_of (start_time (availability ?a) +
                                       int k * timedelta_minutes (slot_size_in_minutes ?a) +
                                       timedelta_minutes (slot_size_in_minutes ?a))))
                          \<lparr>slot_start_time =
                             time_of (start_time (availability ?a) +
                                      int k * timedelta_minutes (slot_size_in_minutes ?a)),
                           slot_end_time =
                             time_of (start_time (availability ?a) +
                                      int k * timedelta_minutes (slot_size_in_minutes ?a) +
                                      timedelta_minutes (slot_size_in_minutes ?a)),
                           slot_availability_id = availability_id ?a\<rparr>)
                [0..<n] [])"
    and before: "\<forall>k<n. start_time (availability ?a) +
                   int k * timedelta_minutes (slot_size_in_minutes ?a) < end_time (availability ?a)"
    and stop: "n < 29 \<longrightarrow>
         \<not> start_time (availability ?a) + int n * timedelta_minutes (slot_size_in_minutes ?a)
           < end_time (availability ?a)"
    by blast
  have "n \<le> 2"
  proof (rule ccontr)
    assume "\<not> n \<le> 2"
    then have "2 < n" by simp
    with before have "start_time (availability ?a) +
        int 2 * timedelta_minutes (slot_size_in_minutes ?a) < end_time (availability ?a)"
      by blast
    then show False by (simp add: timedelta_minutes_def)
  qed
  moreover have "2 \<le> n"
  proof (rule ccontr)
    assume "\<not> 2 \<le> n"
    then have "n < 29" and "int n \<le> 1" by simp_all
    with stop show False by (simp add: timedelta_minutes_def)
  qed
  ultimately have "n = 2" by simp
  with conv show ?thesis
    by (simp add: upt_rec slot_key_def time_str_def two_digits_def time_of_def
        timedelta_minutes_def)
qed

text \<open>
  The claim as written lets the expansion go on for as long as the current start lies
  before the end. For the window 09:00 to 15:00 with slots of 10 minutes the start 13:50
  of a thirtieth slot lies before 15:00, and the last key of the dictionary is 13:40 to
  13:50: no slot starts at 13:50.
\<close>

theorem expansion_until_end_counterexample:
  "(32400::int) + 29 * timedelta_minutes 10 = 49800 \<and> (49800::int) < 54000 \<and>
   map_option (map fst)
     (convert_availability_to_slots
        [\<lparr>availability = \<lparr>day_of_week = 0, start_time = 32400, end_time = 54000\<rparr>,
          slot_size_in_minutes = 10, availability_id = 1\<rparr>]) =
   Some [
           ''09:00:00-09:10:00'', ''09:10:00-09:20:00'', ''09:20:00-09:30:00'',
           ''09:30:00-09:40:00'', ''09:40:00-09:50:00'', ''09:50:00-10:00:00'',
           ''10:00:00-10:10:00'', ''10:10:00-10:20:00'', ''10:20:00-10:30:00'',
           ''10:30:00-10:40:00'', ''10:40:00-10:50:00'', ''10:50:00-11:00:00'',
           ''11:00:00-11:10:00'', ''11:10:00-11:20:00'', ''11:20:00-11:30:00'',
           ''11:30:00-11:40:00'', ''11:40:00-11:50:00'', ''11:50:00-12:00:00'',
           ''12:00:00-12:10:00'', ''12:10:00-12:20:00'', ''12:20:00-12:30:00'',
           ''12:30:00-12:40:00'', ''12:40:00-12:50:00'', ''12:50:00-13:00:00'',
           ''13:00:00-13:10:00'', ''13:10:00-13:20:00'', ''13:20:00-13:30:00'',
           ''13:30:00-13:40:00'', ''13:40:00-13:50:00'']"
  by (simp add: convert_availability_to_slots_def while_loop.simps store_slot_def slot_key_def
      time_str_def two_digits_def time_of_def timedelta_minutes_def)

text \<open>
  Claim C3, as the code has it. For a window longer than 30 times a positive slot size
  the loop stores exactly 29 slots, those for the start times \<open>start + k * size\<close> with
  \<open>k < 29\<close>, and then leaves through the failsafe: the counter is incremented and tested
  against 30 before the assignment, so the thirtieth iteration stores nothing. When the
  window is no longer than a day the 29 keys differ and the dictionary has 29 entries.
\<close>

theorem expansion_failsafe_29_slots:
  assumes "0 < slot_size_in_minutes a"
    and "30 * timedelta_minutes (slot_size_in_minutes a) <
         end_time (availability a) - start_time (availability a)"
  shows "\<exists>slots. convert_availability_to_slots [a] = Some slots \<and>
     slots = fold (\<lambda>k. store_slot (slot_size_in_minutes a) (availability_id a)
                         (start_time (availability a) +
                          int k * timedelta_minutes (slot_size_in_minutes a)))
               [0..<29] [] \<and>
     (end_time (availability a) - start_time (availability a) \<le> 86400 \<longrightarrow> length slots = 29)"
  using long_window_slots [OF assms] long_window_length [OF assms] by blast

theorem expansion_failsafe_29_slots_witness:
  "map_option length
     (convert_availability_to_slots
        [\<lparr>availability = \<lparr>day_of_week = 3, start_time = 28800, end_time = 72000\<rparr>,
          slot_size_in_minutes = 15, availability_id = 7\<rparr>]) = Some 29"
proof -
  let ?a = "\<lparr>availability = \<lparr>day_of_week = 3, start_time = 28800, end_time = 72000\<rparr>,
             slot_size_in_minutes = 15, availability_id = 7\<rparr>"
  have "0 < slot_size_in_minutes ?a" by simp
  moreover have "30 * timedelta_minutes (slot_size_in_minutes ?a) <
      end_time (availability ?a) - start_time (availability ?a)"
    by (simp add: timedelta_minutes_def)
  ultimately obtain slots where "convert_availability_to_slots [?a] = Some slots"
    and "end_time (availability ?a) - start_time (availability ?a) \<le> 86400 \<longrightarrow>
         length slots = 29"
    using expansion_failsafe_29_slots [of ?a] by blast
  moreover have "end_time (availability ?a) - start_time (availability ?a) \<le> 86400" by simp
  ultimately show ?thesis by simp
qed

text \<open>
  The claim as written asks for 30 slots. For the window 09:00 to 15:00 with slots of
  10 minutes, which is longer than 30 slots, the dictionary has 29 entries.
\<close>

theorem expansion_30_slots_counterexample:
  "30 * timedelta_minutes 10 < 54000 - 32400 \<and>
   map_option length
     (convert_availability_to_slots
        [\<lparr>availability = \<lparr>day_of_week = 0, start_time = 32400, end_time = 54000\<rparr>,
          slot_size_in_minutes = 10, availability_id = 1\<rparr>]) = Some 29"
proof -
  let ?a = "\<lparr>availability = \<lparr>day_of_week = 0, start_time = 32400, end_time = 54000\<rparr>,
             slot_size_in_minutes = 10, availability_id = 1\<rparr>"
  have pos: "0 < slot_size_in_minutes ?a" by simp
  have long: "30 * timedelta_minutes (slot_size_in_minutes ?a) <
      end_time (availability ?a) - start_time (availability ?a)"
    by (simp add: timedelta_minutes_def)
  have day: "end_time (availability ?a) - start_time (availability ?a) \<le> 86400" by simp
  have "map_option length (convert_availability_to_slots [?a]) = Some 29"
    by (simp only: long_window_slots [OF pos long] long_window_length [OF pos long day]
        option.map)
  moreover have "30 * timedelta_minutes 10 < (54000::int) - 32400"
    by (simp add: timedelta_minutes_def)
  ultimately show ?thesis by blast
qed

text \<open>
  Claim C7. When an availability produces a key and no availability processed after it
  does, the dictionary holds under that key the entry of that availability, whatever the
  availabilities processed before it stored there: the entry is the one the
  availability produces on its own, and it carries that availability's identifier.
\<close>

theorem last_availability_wins:
  assumes "convert_availability_to_slots [b] = Some sb" and "k \<in> fst ` set sb"
    and "convert_availability_to_slots later = Some sl" and "k \<notin> fst ` set sl"
  shows "\<exists>slots e. convert_availability_to_slots (earlier @ b # later) = Some slots \<and>
     map_of slots k = Some e \<and> map_of sb k = Some e \<and>
     slot_availability_id e = availability_id b"
proof -
  from assms(1) have sb: "sb = window_slots b []" by (simp add: convert_window_slots)
  with assms(2) have kb: "k \<in> window_keys b" by (simp add: keys_window_slots)
  from assms(3) have "sl = fold window_slots later []" by (simp add: convert_window_slots)
  with assms(4) have kl: "\<forall>a\<in>set later. k \<notin> window_keys a"
    by (simp add: keys_fold_window_slots)
  from assms(2) obtain e where e: "map_of sb k = Some e"
    by (metis domD dom_map_of_conv_image_fst)
  then have "(k, e) \<in> set sb" by (rule map_of_SomeD)
  with sb have id: "slot_availability_id e = availability_id b"
    by (simp add: availability_window_slots)
  let ?slots = "fold window_slots (earlier @ b # later) []"
  have "map_of ?slots k = map_of (window_slots b (fold window_slots earlier [])) k"
    using kl by (simp add: map_of_fold_window_slots_other)
  also have "\<dots> = map_of (window_slots b []) k"
    using kb by (rule map_of_window_slots_same)
  finally have "map_of ?slots k = Some e" using e sb by simp
  with e id show ?thesis by (simp add: convert_window_slots)
qed

theorem last_availability_wins_witness:
  "\<exists>slots e.
     convert_availability_to_slots
       [\<lparr>availability = \<lparr>day_of_week = 0, start_time = 32400, end_time = 33000\<rparr>,
         slot_size_in_minutes = 20, availability_id = 1\<rparr>,
        \<lparr>availability = \<lparr>day_of_week = 0, start_time = 32400, end_time = 33000\<rparr>,
         slot_size_in_minutes = 20, availability_id = 2\<rparr>] = Some slots \<and>
     map_of slots ''09:00:00-09:20:00'' = Some e \<and> slot_availability_id e = 2"
proof -
  let ?a = "\<lparr>availability = \<lparr>day_of_week = 0, start_time = 32400, end_time = 33000\<rparr>,
             slot_size_in_minutes = 20, availability_id = 1\<rparr>"
  let ?b = "\<lparr>availability = \<lparr>day_of_week = 0, start_time = 32400, end_time = 33000\<rparr>,
             slot_size_in_minutes = 20, availability_id = 2\<rparr>"
  let ?sb = "[(''09:00:00-09:20:00'',
                \<lparr>slot_start_time = 32400, slot_end_time = 33600, slot_availability_id = 2\<rparr>)]"
  have b: "convert_availability_to_slots [?b] = Some ?sb"
    by (simp add: convert_availability_to_slots_def while_loop.simps store_slot_def slot_key_def
        time_str_def two_digits_def time_of_def timedelta_minutes_def)
  have kb: "''09:00:00-09:20:00'' \<in> fst ` set ?sb" by simp
  have l: "convert_availability_to_slots [] = Some []"
    by (simp add: convert_availability_to_slots_def)
  have kl: "''09:00:00-09:20:00'' \<notin> fst ` set ([] :: slots)" by simp
  from last_availability_wins [OF b kb l kl, of "[?a]"] show ?thesis by auto
qed


section \<open>Claims about booking\<close>

lemma save_token_slot_rows:
  assumes "r \<in> set (save_token_slot obj rows)" and "ts_id r = ts_id obj"
  shows "r = obj"
proof (cases "ts_id obj \<in> set (map ts_id rows)")
  case True
  with assms(1) have "r \<in> (\<lambda>r. if ts_id r = ts_id obj then obj else r) ` set rows"
    by (simp add: save_token_slot_def)
  then obtain r' where "r' \<in> set rows" and r: "r = (if ts_id r' = ts_id obj then obj else r')"
    by blast
  with assms(2) show ?thesis by (cases "ts_id r' = ts_id obj") simp_all
next
  case False
  with assms(1) have "r \<in> set rows \<or> r = obj" by (auto simp: save_token_slot_def)
  moreover have "r \<notin> set rows"
  proof
    assume "r \<in> set rows"
    then have "ts_id r \<in> set (map ts_id rows)" by (simp only: set_map) (rule imageI)
    with False assms(2) show False by (simp only:)
  qed
  ultimately show ?thesis by blast
qed

lemma save_token_slot_member: "obj \<in> set (save_token_slot obj rows)"
  by (auto simp: save_token_slot_def)

lemma save_token_slot_others:
  "filter (\<lambda>r. ts_id r \<noteq> ts_id obj) (save_token_slot obj rows) =
   filter (\<lambda>r. ts_id r \<noteq> ts_id obj) rows"
proof -
  have "filter (\<lambda>r. ts_id r \<noteq> ts_id obj) (map (\<lambda>r. if ts_id r = ts_id obj then obj else r) rows) =
        filter (\<lambda>r. ts_id r \<noteq> ts_id obj) rows"
    by (induction rows) simp_all
  then show ?thesis by (simp add: save_token_slot_def)
qed

text \<open>
  Claim C1. A booking on a slot whose \<open>allocated\<close> has reached the capacity
  \<open>tokens_per_slot\<close> of its availability fails with the validation error
  \<^verbatim>\<open>Slot is already full\<close> (the spec's CapacityExceededError), and the tables and the
  slot are as before: no booking, \<open>allocated\<close> unchanged. Otherwise \<open>allocated\<close> of
  the slot is incremented by one, the slot is written to its row, the other rows stay,
  and one booking with status \<^verbatim>\<open>booked\<close> is added for the patient, the requesting
  user and the reason.
\<close>

theorem lock_create_appointment_capacity:
  assumes "find (\<lambda>a. av_id a = ts_availability_id obj) (availabilities st) = Some av"
  shows "(av_tokens_per_slot av \<le> allocated obj \<longrightarrow>
            lock_create_appointment st obj pat usr reason =
              (st, obj, Inl (ValidationError ''Slot is already full''))) \<and>
         (allocated obj < av_tokens_per_slot av \<longrightarrow>
            (\<exists>st' obj' booking.
               lock_create_appointment st obj pat usr reason = (st', obj', Inr booking) \<and>
               obj' = obj\<lparr>allocated := allocated obj + 1\<rparr> \<and>
               obj' \<in> set (token_slots st') \<and>
               (\<forall>r\<in>set (token_slots st'). ts_id r = ts_id obj \<longrightarrow> r = obj') \<and>
               filter (\<lambda>r. ts_id r \<noteq> ts_id obj) (token_slots st') =
                 filter (\<lambda>r. ts_id r \<noteq> ts_id obj) (token_slots st) \<and>
               token_bookings st' = token_bookings st @ [booking] \<and>
               status booking = ''booked'' \<and> tb_token_slot booking = ts_id obj \<and>
               tb_patient booking = patient_id pat \<and> booked_by booking = user_id usr \<and>
               reason_for_visit booking = reason))"
proof (intro conjI impI)
  assume "av_tokens_per_slot av \<le> allocated obj"
  with assms show "lock_create_appointment st obj pat usr reason =
      (st, obj, Inl (ValidationError ''Slot is already full''))"
    by (simp add: lock_create_appointment_def)
next
  assume free: "allocated obj < av_tokens_per_slot av"
  let ?obj = "obj\<lparr>allocated := allocated obj + 1\<rparr>"
  let ?booking = "\<lparr>tb_id = new_id (map tb_id (token_bookings st)), tb_token_slot = ts_id ?obj,
       tb_patient = patient_id pat, booked_by = user_id usr, reason_for_visit = reason,
       status = ''booked''\<rparr>"
  let ?st = "st\<lparr>token_slots := save_token_slot ?obj (token_slots st),
                token_bookings := token_bookings st @ [?booking]\<rparr>"
  from assms free have run: "lock_create_appointment st obj pat usr reason = (?st, ?obj, Inr ?booking)"
    by (simp add: lock_create_appointment_def Let_def)
  have "?obj \<in> set (token_slots ?st)"
    by (simp add: save_token_slot_member)
  moreover have "\<forall>r\<in>set (token_slots ?st). ts_id r = ts_id obj \<longrightarrow> r = ?obj"
    using save_token_slot_rows [of _ ?obj "token_slots st"] by simp
  moreover have "filter (\<lambda>r. ts_id r \<noteq> ts_id obj) (token_slots ?st) =
      filter (\<lambda>r. ts_id r \<noteq> ts_id obj) (token_slots st)"
    using save_token_slot_others [of ?obj "token_slots st"] by simp
  ultimately show "\<exists>st' obj' booking.
               lock_create_appointment st obj pat usr reason = (st', obj', Inr booking) \<and>
               obj' = obj\<lparr>allocated := allocated obj + 1\<rparr> \<and>
               obj' \<in> set (token_slots st') \<and>
               (\<forall>r\<in>set (token_slots st'). ts_id r = ts_id obj \<longrightarrow> r = obj') \<and>
               filter (\<lambda>r. ts_id r \<noteq> ts_id obj) (token_slots st') =
                 filter (\<lambda>r. ts_id r \<noteq> ts_id obj) (token_slots st) \<and>
               token_bookings st' = token_bookings st @ [booking] \<and>
               status booking = ''booked'' \<and> tb_token_slot booking = ts_id obj \<and>
               tb_patient booking = patient_id pat \<and> booked_by booking = user_id usr \<and>
               reason_for_visit booking = reason"
    using run by simp
qed

text \<open>
  The scenario of the spec: a slot with \<open>allocated = 2\<close> and a capacity of 2 is refused
  and nothing changes.
\<close>

theorem lock_create_appointment_capacity_witness:
  "lock_create_appointment
     \<lparr>users = [], patients = [], schedulable_resources = [],
      availabilities = [\<lparr>av_id = 1, av_slot_type = ''appointment'',
        av_schedule = \<lparr>valid_from = 1, valid_to = 9, schedule_resource = 1\<rparr>,
        av_slot_size_in_minutes = 20, av_tokens_per_slot = 2, av_availability = []\<rparr>],
      token_slots = [\<lparr>ts_id = 1, ts_resource = 1, start_datetime = (5, 32400),
        end_datetime = (5, 33600), ts_availability_id = 1, allocated = 2\<rparr>],
      token_bookings = []\<rparr>
     \<lparr>ts_id = 1, ts_resource = 1, start_datetime = (5, 32400),
        end_datetime = (5, 33600), ts_availability_id = 1, allocated = 2\<rparr>
     \<lparr>patient_id = 1, patient_external_id = ''p''\<rparr>
     \<lparr>user_id = 1, user_external_id = ''u''\<rparr> ''fever'' =
   (\<lparr>users = [], patients = [], schedulable_resources = [],
      availabilities = [\<lparr>av_id = 1, av_slot_type = ''appointment'',
        av_schedule = \<lparr>valid_from = 1, valid_to = 9, schedule_resource = 1\<rparr>,
        av_slot_size_in_minutes = 20, av_tokens_per_slot = 2, av_availability = []\<rparr>],
      token_slots = [\<lparr>ts_id = 1, ts_resource = 1, start_datetime = (5, 32400),
        end_datetime = (5, 33600), ts_availability_id = 1, allocated = 2\<rparr>],
      token_bookings = []\<rparr>,
    \<lparr>ts_id = 1, ts_resource = 1, start_datetime = (5, 32400),
        end_datetime = (5, 33600), ts_availability_id = 1, allocated = 2\<rparr>,
    Inl (ValidationError ''Slot is already full''))"
proof -
  let ?av = "\<lparr>av_id = 1, av_slot_type = ''appointment'',
        av_schedule = \<lparr>valid_from = 1, valid_to = 9, schedule_resource = 1\<rparr>,
        av_slot_size_in_minutes = 20, av_tokens_per_slot = 2, av_availability = []\<rparr>"
  let ?obj = "\<lparr>ts_id = 1, ts_resource = 1, start_datetime = (5, 32400),
        end_datetime = (5, 33600), ts_availability_id = 1, allocated = 2\<rparr>"
  let ?st = "\<lparr>users = [], patients = [], schedulable_resources = [],
      availabilities = [?av], token_slots = [?obj], token_bookings = []\<rparr>"
  have "find (\<lambda>a. av_id a = ts_availability_id ?obj) (availabilities ?st) = Some ?av"
    by simp
  from lock_create_appointment_capacity [OF this] show ?thesis by simp
qed


text \<open>
  Claim C8 asks that of several bookings of a slot with one token exactly one succeeds,
  because each attempt reads the slot's \<open>allocated\<close> again under the lock. The code
  does not read it again: \<^verbatim>\<open>create_appointment\<close> reads the slot with
  \<^verbatim>\<open>get_object\<close> before the lock is taken, and the locked body tests and increments
  the object it was given. Two requests that both read the slot before either enters the
  lock run their locked bodies one after the other on objects with \<open>allocated = 0\<close>, and
  both book: two bookings on a slot of capacity 1, whose row ends with \<open>allocated = 1\<close>.
\<close>

theorem stale_slot_is_booked_twice:
  "(let slot0 = \<lparr>ts_id = 1, ts_resource = 1, start_datetime = (5, 32400),
                  end_datetime = (5, 33600), ts_availability_id = 1, allocated = 0\<rparr>;
        st0 = \<lparr>users = [\<lparr>user_id = 1, user_external_id = ''u''\<rparr>],
               patients = [\<lparr>patient_id = 1, patient_external_id = ''p1''\<rparr>,
                           \<lparr>patient_id = 2, patient_external_id = ''p2''\<rparr>],
               schedulable_resources = [],
               availabilities = [\<lparr>av_id = 1, av_slot_type = ''appointment'',
                 av_schedule = \<lparr>valid_from = 1, valid_to = 9, schedule_resource = 1\<rparr>,
                 av_slot_size_in_minutes = 20, av_tokens_per_slot = 1, av_availability = []\<rparr>],
               token_slots = [slot0], token_bookings = []\<rparr>;
        usr = \<lparr>user_id = 1, user_external_id = ''u''\<rparr>;
        first_read = get_object st0 1;
        second_read = get_object st0 1;
        (st1, obj1, r1) = create_appointment_handler st0 slot0
                            \<lparr>patient = ''p1'', booking_reason_for_visit = ''a''\<rparr> usr;
        (st2, obj2, r2) = create_appointment_handler st1 slot0
                            \<lparr>patient = ''p2'', booking_reason_for_visit = ''b''\<rparr> usr
    in first_read = Some slot0 \<and> second_read = Some slot0 \<and>
       r1 = Inr \<lparr>tb_id = 1, tb_token_slot = 1, tb_patient = 1, booked_by = 1,
                 reason_for_visit = ''a'', status = ''booked''\<rparr> \<and>
       r2 = Inr \<lparr>tb_id = 2, tb_token_slot = 1, tb_patient = 2, booked_by = 1,
                 reason_for_visit = ''b'', status = ''booked''\<rparr> \<and>
       length (token_bookings st2) = 2 \<and>
       map allocated (token_slots st2) = [1])"
  by (simp add: Let_def get_object_def create_appointment_handler_def
      lock_create_appointment_def save_token_slot_def new_id_def)

section \<open>Claims about consultation symptoms\<close>

lemma Model_save_rows:
  assumes "\<forall>r\<in>set rows. other_symptom r = [] \<or> symptom r = Symptom_value OTHERS"
    and "other_symptom obj = [] \<or> symptom obj = Symptom_value OTHERS"
  shows "\<forall>r\<in>set (fst (Model_save rows obj)).
           other_symptom r = [] \<or> symptom r = Symptom_value OTHERS"
proof (cases "cs_id obj")
  case None
  with assms show ?thesis by (auto simp: Model_save_def Let_def)
next
  case (Some k)
  with assms show ?thesis by (auto simp: Model_save_def)
qed

lemma ConsultationSymptom_save_rows:
  assumes "\<forall>r\<in>set rows. other_symptom r = [] \<or> symptom r = Symptom_value OTHERS"
  shows "\<forall>r\<in>set (fst (ConsultationSymptom_save rows obj)).
           other_symptom r = [] \<or> symptom r = Symptom_value OTHERS"
proof (cases "other_symptom obj \<noteq> [] \<and> symptom obj \<noteq> Symptom_value OTHERS")
  case True
  with assms show ?thesis by (simp add: ConsultationSymptom_save_def)
next
  case False
  then have ok: "other_symptom obj = [] \<or> symptom obj = Symptom_value OTHERS" by blast
  have "fst (ConsultationSymptom_save rows obj) = fst (Model_save rows obj)"
    using False by (auto simp: ConsultationSymptom_save_def split: prod.splits)
  with Model_save_rows [OF assms ok] show ?thesis by simp
qed

lemma save_each_rows:
  "\<forall>r\<in>set rows. other_symptom r = [] \<or> symptom r = Symptom_value OTHERS \<Longrightarrow>
   \<forall>r\<in>set (save_each rows objs). other_symptom r = [] \<or> symptom r = Symptom_value OTHERS"
proof (induction objs arbitrary: rows)
  case Nil
  then show ?case by simp
next
  case (Cons obj objs)
  from Cons.prems have "\<forall>r\<in>set (fst (ConsultationSymptom_save rows obj)).
      other_symptom r = [] \<or> symptom r = Symptom_value OTHERS"
    by (rule ConsultationSymptom_save_rows)
  then show ?case using Cons.IH by simp
qed

text \<open>
  Claim C10. Saving a consultation symptom whose \<open>other_symptom\<close> is not empty while
  its \<open>symptom\<close> is not OTHERS raises the value error and leaves the table as it is.
  Every other save goes on to the model's save and returns. So a table in which no row
  pairs a non-empty \<open>other_symptom\<close> with a symptom other than OTHERS stays such a
  table under any sequence of saves.
\<close>

theorem consultation_symptom_save_guard:
  "(other_symptom obj \<noteq> [] \<and> symptom obj \<noteq> Symptom_value OTHERS \<longrightarrow>
      ConsultationSymptom_save rows obj =
        (rows, Inl (ValueError ''Other Symptom should be empty when Symptom is not OTHERS''))) \<and>
   (other_symptom obj = [] \<or> symptom obj = Symptom_value OTHERS \<longrightarrow>
      ConsultationSymptom_save rows obj =
        (fst (Model_save rows obj), Inr (snd (Model_save rows obj)))) \<and>
   ((\<forall>r\<in>set rows. other_symptom r = [] \<or> symptom r = Symptom_value OTHERS) \<longrightarrow>
    (\<forall>r\<in>set (save_each rows objs). other_symptom r = [] \<or> symptom r = Symptom_value OTHERS))"
proof (intro conjI impI)
  assume "other_symptom obj \<noteq> [] \<and> symptom obj \<noteq> Symptom_value OTHERS"
  then show "ConsultationSymptom_save rows obj =
      (rows, Inl (ValueError ''Other Symptom should be empty when Symptom is not OTHERS''))"
    by (simp add: ConsultationSymptom_save_def)
next
  assume "other_symptom obj = [] \<or> symptom obj = Symptom_value OTHERS"
  then have "\<not> (other_symptom obj \<noteq> [] \<and> symptom obj \<noteq> Symptom_value OTHERS)" by blast
  then show "ConsultationSymptom_save rows obj =
      (fst (Model_save rows obj), Inr (snd (Model_save rows obj)))"
    by (auto simp: ConsultationSymptom_save_def split: prod.splits)
next
  assume "\<forall>r\<in>set rows. other_symptom r = [] \<or> symptom r = Symptom_value OTHERS"
  then show "\<forall>r\<in>set (save_each rows objs).
      other_symptom r = [] \<or> symptom r = Symptom_value OTHERS"
    by (rule save_each_rows)
qed

theorem consultation_symptom_save_guard_witness:
  "ConsultationSymptom_save [] \<lparr>cs_id = None, symptom = 2, other_symptom = ''rash''\<rparr> =
     ([], Inl (ValueError ''Other Symptom should be empty when Symptom is not OTHERS'')) \<and>
   ConsultationSymptom_save [] \<lparr>cs_id = None, symptom = 9, other_symptom = ''rash''\<rparr> =
     ([\<lparr>cs_id = Some 1, symptom = 9, other_symptom = ''rash''\<rparr>],
      Inr \<lparr>cs_id = Some 1, symptom = 9, other_symptom = ''rash''\<rparr>) \<and>
   list_all (\<lambda>r. other_symptom r = [] \<or> symptom r = Symptom_value OTHERS)
     (save_each []
        [\<lparr>cs_id = None, symptom = 2, other_symptom = ''rash''\<rparr>,
         \<lparr>cs_id = None, symptom = 9, other_symptom = ''rash''\<rparr>,
         \<lparr>cs_id = None, symptom = 2, other_symptom = []\<rparr>])"
proof -
  let ?bad = "\<lparr>cs_id = None, symptom = 2, other_symptom = ''rash''\<rparr>"
  let ?good = "\<lparr>cs_id = None, symptom = 9, other_symptom = ''rash''\<rparr>"
  let ?objs = "[?bad, ?good, \<lparr>cs_id = None, symptom = 2, other_symptom = []\<rparr>]"
  have m: "Model_save [] ?good =
      ([\<lparr>cs_id = Some 1, symptom = 9, other_symptom = ''rash''\<rparr>],
       \<lparr>cs_id = Some 1, symptom = 9, other_symptom = ''rash''\<rparr>)"
    by (simp add: Model_save_def new_id_def Let_def)
  from consultation_symptom_save_guard [of ?bad "[]" ?objs]
  have "ConsultationSymptom_save [] ?bad =
     ([], Inl (ValueError ''Other Symptom should be empty when Symptom is not OTHERS''))"
    by simp
  moreover from consultation_symptom_save_guard [of ?good "[]" ?objs] m
  have "ConsultationSymptom_save [] ?good =
     ([\<lparr>cs_id = Some 1, symptom = 9, other_symptom = ''rash''\<rparr>],
      Inr \<lparr>cs_id = Some 1, symptom = 9, other_symptom = ''rash''\<rparr>)"
    by simp
  moreover from consultation_symptom_save_guard [of ?bad "[]" ?objs]
  have "list_all (\<lambda>r. other_symptom r = [] \<or> symptom r = Symptom_value OTHERS)
          (save_each [] ?objs)"
    unfolding list_all_iff by simp
  ultimately show ?thesis by blast
qed


section \<open>Claims about the day query\<close>

subsection \<open>Removing the slots that exist\<close>

lemma remove_step:
  assumes "distinct (map fst slots)"
  shows "(case map_of slots k of
            None \<Rightarrow> slots
          | Some entry \<Rightarrow>
              if slot_availability_id entry = av then AList.delete k slots else slots) =
         filter (\<lambda>(k', e). \<not> (k = k' \<and> av = slot_availability_id e)) slots"
proof (cases "map_of slots k")
  case None
  then have "k \<notin> fst ` set slots" by (simp add: map_of_eq_None_iff)
  then have "\<forall>p\<in>set slots. (\<lambda>(k', e). \<not> (k = k' \<and> av = slot_availability_id e)) p"
    by force
  then have "filter (\<lambda>(k', e). \<not> (k = k' \<and> av = slot_availability_id e)) slots = slots"
    by (simp only: filter_True)
  with None show ?thesis by simp
next
  case (Some e0)
  have same: "e = e0" if "(k, e) \<in> set slots" for e
    using that assms Some by simp
  show ?thesis
  proof (cases "slot_availability_id e0 = av")
    case True
    have "filter (\<lambda>(k', e). \<not> (k = k' \<and> av = slot_availability_id e)) slots =
          filter (\<lambda>(k', e). k \<noteq> k') slots"
      by (rule filter_cong) (use same True in auto)
    with Some True show ?thesis by (simp add: AList.delete_eq)
  next
    case False
    have "\<forall>p\<in>set slots. (\<lambda>(k', e). \<not> (k = k' \<and> av = slot_availability_id e)) p"
      using same False by auto
    then have "filter (\<lambda>(k', e). \<not> (k = k' \<and> av = slot_availability_id e)) slots = slots"
      by (simp only: filter_True)
    with Some False show ?thesis by simp
  qed
qed

lemma remove_created_slots_filter:
  "distinct (map fst slots) \<Longrightarrow>
   remove_created_slots created_slots slots =
     filter (\<lambda>(k, e). \<not> (\<exists>s\<in>set created_slots.
                slot_key (snd (start_datetime s)) (snd (end_datetime s)) = k \<and>
                ts_availability_id s = slot_availability_id e)) slots"
proof (induction created_slots arbitrary: slots)
  case Nil
  then show ?case by simp
next
  case (Cons s created_slots)
  let ?k = "slot_key (snd (start_datetime s)) (snd (end_datetime s))"
  let ?slots = "filter (\<lambda>(k', e). \<not> (?k = k' \<and> ts_availability_id s = slot_availability_id e))
                  slots"
  from Cons.prems have step: "(case map_of slots ?k of
            None \<Rightarrow> slots
          | Some entry \<Rightarrow>
              if slot_availability_id entry = ts_availability_id s
              then AList.delete ?k slots else slots) = ?slots"
    by (rule remove_step)
  from Cons.prems have "distinct (map fst ?slots)" by (rule distinct_map_filter)
  then have "remove_created_slots created_slots ?slots =
     filter (\<lambda>(k, e). \<not> (\<exists>s\<in>set created_slots.
                slot_key (snd (start_datetime s)) (snd (end_datetime s)) = k \<and>
                ts_availability_id s = slot_availability_id e)) ?slots"
    by (rule Cons.IH)
  also have "\<dots> = filter (\<lambda>(k, e). \<not> (\<exists>s\<in>set (s # created_slots).
                slot_key (snd (start_datetime s)) (snd (end_datetime s)) = k \<and>
                ts_availability_id s = slot_availability_id e)) slots"
    unfolding filter_filter by (rule filter_cong) auto
  finally show ?case using step by (simp add: Let_def)
qed

subsection \<open>Creating the slots that remain\<close>

lemma create_remaining_slots_append:
  "\<exists>new. create_remaining_slots res d remaining rows = rows @ new \<and>
     map (\<lambda>s. (ts_resource s, start_datetime s, end_datetime s, ts_availability_id s,
               allocated s)) new =
     map (\<lambda>(k, e). (res, (d, slot_start_time e), (d, slot_end_time e),
                    slot_availability_id e, 0)) remaining"
proof (induction remaining arbitrary: rows)
  case Nil
  then show ?case by simp
next
  case (Cons p remaining)
  obtain k e where p: "p = (k, e)" by (cases p)
  let ?row = "\<lparr>ts_id = new_id (map ts_id rows), ts_resource = res,
      start_datetime = (d, slot_start_time e), end_datetime = (d, slot_end_time e),
      ts_availability_id = slot_availability_id e, allocated = 0\<rparr>"
  from Cons.IH [of "rows @ [?row]"] obtain new where
    new: "create_remaining_slots res d remaining (rows @ [?row]) = (rows @ [?row]) @ new"
    and proj: "map (\<lambda>s. (ts_resource s, start_datetime s, end_datetime s, ts_availability_id s,
               allocated s)) new =
     map (\<lambda>(k, e). (res, (d, slot_start_time e), (d, slot_end_time e),
                    slot_availability_id e, 0)) remaining"
    by blast
  from new have "create_remaining_slots res d (p # remaining) rows = rows @ (?row # new)"
    by (simp add: p TokenSlot_create_def)
  moreover from proj have "map (\<lambda>s. (ts_resource s, start_datetime s, end_datetime s,
        ts_availability_id s, allocated s)) (?row # new) =
     map (\<lambda>(k, e). (res, (d, slot_start_time e), (d, slot_end_time e),
                    slot_availability_id e, 0)) (p # remaining)"
    by (simp add: p)
  ultimately show ?case by blast
qed

text \<open>
  Claim C6. An entry of the dictionary is removed by the pass over the stored slots
  exactly when one of them has the entry's key and the entry's availability: the
  dictionary after the pass is the dictionary without those entries, so an entry whose
  key is matched only by slots of another availability stays. The rows created then are
  one for each remaining entry, in order, with the entry's times and availability.
\<close>

theorem reconciliation_keeps_unmatched_entries:
  assumes "convert_availability_to_slots avs = Some slots"
  shows "remove_created_slots created_slots slots =
           filter (\<lambda>(k, e). \<not> (\<exists>s\<in>set created_slots.
                      slot_key (snd (start_datetime s)) (snd (end_datetime s)) = k \<and>
                      ts_availability_id s = slot_availability_id e)) slots \<and>
         (\<exists>new. create_remaining_slots res d (remove_created_slots created_slots slots) rows =
                   rows @ new \<and>
            map (\<lambda>s. (ts_resource s, start_datetime s, end_datetime s, ts_availability_id s,
                      allocated s)) new =
            map (\<lambda>(k, e). (res, (d, slot_start_time e), (d, slot_end_time e),
                           slot_availability_id e, 0))
              (remove_created_slots created_slots slots))"
proof
  from assms have "distinct (map fst slots)" by (rule convert_distinct)
  then show "remove_created_slots created_slots slots =
           filter (\<lambda>(k, e). \<not> (\<exists>s\<in>set created_slots.
                      slot_key (snd (start_datetime s)) (snd (end_datetime s)) = k \<and>
                      ts_availability_id s = slot_availability_id e)) slots"
    by (rule remove_created_slots_filter)
next
  show "\<exists>new. create_remaining_slots res d (remove_created_slots created_slots slots) rows =
                   rows @ new \<and>
            map (\<lambda>s. (ts_resource s, start_datetime s, end_datetime s, ts_availability_id s,
                      allocated s)) new =
            map (\<lambda>(k, e). (res, (d, slot_start_time e), (d, slot_end_time e),
                           slot_availability_id e, 0))
              (remove_created_slots created_slots slots)"
    by (rule create_remaining_slots_append)
qed


text \<open>
  For the window 09:00 to 09:40 of availability 1 with slots of 20 minutes, a stored slot
  09:00 to 09:20 of availability 1 removes its entry, and a stored slot 09:20 to 09:40 of
  availability 2 leaves the entry 09:20 to 09:40 of availability 1, for which a row is
  created.
\<close>

theorem reconciliation_keeps_unmatched_entries_witness:
  "remove_created_slots
     [\<lparr>ts_id = 1, ts_resource = 1, start_datetime = (5, 32400), end_datetime = (5, 33600),
       ts_availability_id = 1, allocated = 0\<rparr>,
      \<lparr>ts_id = 2, ts_resource = 1, start_datetime = (5, 33600), end_datetime = (5, 34800),
       ts_availability_id = 2, allocated = 0\<rparr>]
     [(''09:00:00-09:20:00'',
        \<lparr>slot_start_time = 32400, slot_end_time = 33600, slot_availability_id = 1\<rparr>),
      (''09:20:00-09:40:00'',
        \<lparr>slot_start_time = 33600, slot_end_time = 34800, slot_availability_id = 1\<rparr>)] =
   [(''09:20:00-09:40:00'',
      \<lparr>slot_start_time = 33600, slot_end_time = 34800, slot_availability_id = 1\<rparr>)]"
proof -
  let ?a = "\<lparr>availability = \<lparr>day_of_week = 0, start_time = 32400, end_time = 34800\<rparr>,
             slot_size_in_minutes = 20, availability_id = 1\<rparr>"
  let ?slots = "[(''09:00:00-09:20:00'',
        \<lparr>slot_start_time = 32400, slot_end_time = 33600, slot_availability_id = 1\<rparr>),
      (''09:20:00-09:40:00'',
        \<lparr>slot_start_time = 33600, slot_end_time = 34800, slot_availability_id = 1\<rparr>)]"
  have conv: "convert_availability_to_slots [?a] = Some ?slots"
    by (simp add: convert_availability_to_slots_def while_loop.simps store_slot_def slot_key_def
        time_str_def two_digits_def time_of_def timedelta_minutes_def)
  from reconciliation_keeps_unmatched_entries [OF conv] show ?thesis
    by (simp add: slot_key_def time_str_def two_digits_def)
qed


subsection \<open>The second query of a day\<close>

lemma slots_of_day_append:
  "slots_of_day tz (xs @ ys) d res = slots_of_day tz xs d res @ slots_of_day tz ys d res"
  by (simp add: slots_of_day_def)

lemma in_slots_of_day:
  "s \<in> set (slots_of_day tz rows d res) \<longleftrightarrow>
   s \<in> set rows \<and> local_date tz (start_datetime s) = d \<and>
   local_date tz (end_datetime s) = d \<and> ts_resource s = res"
  by (auto simp: slots_of_day_def)

lemma local_date_utc: "0 \<le> t \<Longrightarrow> t < 86400 \<Longrightarrow> local_date 0 (d, t) = d"
  by (simp add: local_date_def)

lemma times_fold_store_slot:
  "set (fold (store_slot sz av) cs slots) \<subseteq>
     set slots \<union> {p. 0 \<le> slot_start_time (snd p) \<and> slot_start_time (snd p) < 86400 \<and>
                      0 \<le> slot_end_time (snd p) \<and> slot_end_time (snd p) < 86400}"
proof (induction cs arbitrary: slots)
  case Nil
  then show ?case by simp
next
  case (Cons c cs)
  have "set (store_slot sz av c slots) \<subseteq>
      insert (slot_key (time_of c) (time_of (c + timedelta_minutes sz)),
              \<lparr>slot_start_time = time_of c, slot_end_time = time_of (c + timedelta_minutes sz),
               slot_availability_id = av\<rparr>) (set slots)"
    unfolding store_slot_def by (rule set_update_subset)
  with Cons.IH [of "store_slot sz av c slots"] show ?case
    by (auto simp: time_of_range)
qed

lemma times_fold_window_slots:
  "set (fold window_slots avs slots) \<subseteq>
     set slots \<union> {p. 0 \<le> slot_start_time (snd p) \<and> slot_start_time (snd p) < 86400 \<and>
                      0 \<le> slot_end_time (snd p) \<and> slot_end_time (snd p) < 86400}"
proof (induction avs arbitrary: slots)
  case Nil
  then show ?case by simp
next
  case (Cons a avs)
  have "set (window_slots a slots) \<subseteq>
     set slots \<union> {p. 0 \<le> slot_start_time (snd p) \<and> slot_start_time (snd p) < 86400 \<and>
                      0 \<le> slot_end_time (snd p) \<and> slot_end_time (snd p) < 86400}"
    unfolding window_slots_def by (rule times_fold_store_slot)
  with Cons.IH [of "window_slots a slots"] show ?case by auto
qed

lemma convert_times:
  assumes "convert_availability_to_slots avs = Some slots" and "(k, e) \<in> set slots"
  shows "0 \<le> slot_start_time e \<and> slot_start_time e < 86400 \<and>
         0 \<le> slot_end_time e \<and> slot_end_time e < 86400"
proof -
  from assms(1) have "slots = fold window_slots avs []" by (simp add: convert_window_slots)
  with assms(2) times_fold_window_slots [of avs "[]"] show ?thesis by auto
qed

text \<open>
  When every slot of the dictionary, built on the queried day, has that day as its date
  in the current time zone, the pass over the slots of the day after the rows have been
  created empties the dictionary.
\<close>

lemma second_pass_empty:
  assumes conv: "convert_availability_to_slots avs = Some slots"
    and inday: "\<And>k e. (k, e) \<in> set slots \<Longrightarrow>
                 local_date tz (d, slot_start_time e) = d \<and>
                 local_date tz (d, slot_end_time e) = d"
  shows "remove_created_slots
           (slots_of_day tz
              (create_remaining_slots res d
                 (remove_created_slots (slots_of_day tz rows d res) slots) rows) d res)
           slots = []"
proof -
  let ?created = "slots_of_day tz rows d res"
  let ?remaining = "remove_created_slots ?created slots"
  let ?rows1 = "create_remaining_slots res d ?remaining rows"
  let ?match = "\<lambda>cs (k, e). \<exists>s\<in>set cs.
      slot_key (snd (start_datetime s)) (snd (end_datetime s)) = k \<and>
      ts_availability_id s = slot_availability_id e"
  from conv have dist: "distinct (map fst slots)" by (rule convert_distinct)
  have rem: "?remaining = filter (\<lambda>p. \<not> ?match ?created p) slots"
    using remove_created_slots_filter [OF dist, of ?created] by (simp add: case_prod_unfold)
  obtain new where rows1: "?rows1 = rows @ new"
    and proj: "map (\<lambda>s. (ts_resource s, start_datetime s, end_datetime s, ts_availability_id s,
               allocated s)) new =
     map (\<lambda>(k, e). (res, (d, slot_start_time e), (d, slot_end_time e),
                    slot_availability_id e, 0)) ?remaining"
    using create_remaining_slots_append [of res d ?remaining rows] by blast
  have all: "?match (slots_of_day tz ?rows1 d res) p" if p: "p \<in> set slots" for p
  proof (cases "?match ?created p")
    case True
    then show ?thesis
      by (auto simp: rows1 slots_of_day_append case_prod_unfold)
  next
    case False
    obtain k e where ke: "p = (k, e)" by (cases p)
    from False p have "p \<in> set ?remaining" by (simp add: rem)
    then have "(res, (d, slot_start_time e), (d, slot_end_time e), slot_availability_id e, 0)
        \<in> set (map (\<lambda>(k, e). (res, (d, slot_start_time e), (d, slot_end_time e),
                    slot_availability_id e, 0::int)) ?remaining)"
      unfolding ke by force
    then have "(res, (d, slot_start_time e), (d, slot_end_time e), slot_availability_id e, 0)
        \<in> set (map (\<lambda>s. (ts_resource s, start_datetime s, end_datetime s, ts_availability_id s,
               allocated s)) new)"
      by (simp only: proj)
    then obtain s where s: "s \<in> set new" "ts_resource s = res"
      "start_datetime s = (d, slot_start_time e)" "end_datetime s = (d, slot_end_time e)"
      "ts_availability_id s = slot_availability_id e"
      by auto
    from p have "local_date tz (d, slot_start_time e) = d \<and>
        local_date tz (d, slot_end_time e) = d"
      unfolding ke by (rule inday)
    with s have mem: "s \<in> set (slots_of_day tz ?rows1 d res)"
      by (simp add: rows1 in_slots_of_day)
    from conv p have "k = slot_key (slot_start_time e) (slot_end_time e)"
      unfolding ke by (rule convert_entries)
    with s(3,4) have "slot_key (snd (start_datetime s)) (snd (end_datetime s)) = k"
      by simp
    with mem s(5) have "\<exists>s\<in>set (slots_of_day tz ?rows1 d res).
        slot_key (snd (start_datetime s)) (snd (end_datetime s)) = k \<and>
        ts_availability_id s = slot_availability_id e"
      by blast
    then show ?thesis unfolding ke by (simp only: prod.case)
  qed
  have "remove_created_slots (slots_of_day tz ?rows1 d res) slots =
      filter (\<lambda>p. \<not> ?match (slots_of_day tz ?rows1 d res) p) slots"
    using remove_created_slots_filter [OF dist, of "slots_of_day tz ?rows1 d res"]
    by (simp add: case_prod_unfold)
  also have "\<dots> = []" using all by (simp only: filter_empty_conv) blast
  finally show ?thesis .
qed

text \<open>
  With the current time zone at offset 0 a day query that returns, run again on the
  state it left, returns the same result and leaves the state as it is.
\<close>

lemma query_again_same_zone:
  assumes "get_slots_for_day_handler 0 st facility request_data = Some (st1, r)"
  shows "get_slots_for_day_handler 0 st1 facility request_data = Some (st1, r)"
proof (cases "find (\<lambda>u. user_external_id u = resource request_data) (users st)")
  case None
  with assms show ?thesis by (auto simp: get_slots_for_day_handler_def)
next
  case (Some usr)
  show ?thesis
  proof (cases "find (\<lambda>r. sr_facility_external_id r = facility \<and> sr_resource_id r = user_id usr \<and>
                     sr_resource_type r = resource_type request_data)
             (schedulable_resources st)")
    case None
    with Some assms show ?thesis by (auto simp: get_slots_for_day_handler_def)
  next
    case sr: (Some schedulable_resource_obj)
    let ?avs = "calculated_dow_availabilities
                (filter (\<lambda>a. av_slot_type a = SlotTypeOptions_appointment \<and>
                              valid_from (av_schedule a) \<le> day request_data \<and>
                              valid_to (av_schedule a) \<ge> day request_data \<and>
                              schedule_resource (av_schedule a) = sr_id schedulable_resource_obj)
                   (availabilities st))
                (day request_data)"
    show ?thesis
    proof (cases "convert_availability_to_slots ?avs")
      case None
      with Some sr assms show ?thesis by (simp add: get_slots_for_day_handler_def)
    next
      case conv: (Some slots)
      let ?res = "sr_id schedulable_resource_obj"
      let ?d = "day request_data"
      let ?rows1 = "create_remaining_slots ?res ?d
          (remove_created_slots (slots_of_day 0 (token_slots st) ?d ?res) slots) (token_slots st)"
      from Some sr conv assms have st1: "st1 = st\<lparr>token_slots := ?rows1\<rparr>"
        and r: "r = Inr (slots_of_day 0 ?rows1 ?d ?res)"
        by (simp_all add: get_slots_for_day_handler_def Let_def)
      have inday: "local_date 0 (?d, slot_start_time e) = ?d \<and>
          local_date 0 (?d, slot_end_time e) = ?d" if "(k, e) \<in> set slots" for k e
        using convert_times [OF conv that] by (simp add: local_date_utc)
      have empty: "remove_created_slots (slots_of_day 0 ?rows1 ?d ?res) slots = []"
        using conv inday by (rule second_pass_empty)
      have "get_slots_for_day_handler 0 st1 facility request_data =
          Some (st1\<lparr>token_slots := create_remaining_slots ?res ?d
                    (remove_created_slots (slots_of_day 0 (token_slots st1) ?d ?res) slots)
                    (token_slots st1)\<rparr>,
                Inr (slots_of_day 0 (create_remaining_slots ?res ?d
                    (remove_created_slots (slots_of_day 0 (token_slots st1) ?d ?res) slots)
                    (token_slots st1)) ?d ?res))"
        using Some sr conv by (simp add: get_slots_for_day_handler_def Let_def st1)
      also have "token_slots st1 = ?rows1" by (simp add: st1)
      finally show ?thesis using empty r st1 by simp
    qed
  qed
qed


text \<open>
  Claim C4 asks that a second query of the same day creates no slot. The handler means
  to do so (its comments: fetch all existing slots in that day, create everything else,
  create if missed), and it does not when the current time zone is not UTC: the rows are
  built in the time zone of \<^verbatim>\<open>timezone.now()\<close>, which is UTC, and looked up by their date
  in the current time zone. With the current time zone at +05:30 and a window 18:00 to
  19:00 in slots of 20 minutes, the first query creates three slots and finds only the
  first again, since 18:40 and 19:00 UTC fall on the next day at +05:30. The second
  query finds that one slot and creates the other two once more: five rows, of which
  rows 4 and 5 repeat rows 2 and 3.
\<close>

theorem query_again_duplicates_slots:
  "(let st0 = \<lparr>users = [\<lparr>user_id = 1, user_external_id = ''u''\<rparr>], patients = [],
               schedulable_resources = [\<lparr>sr_id = 1, sr_facility_external_id = ''f'',
                 sr_resource_id = 1, sr_resource_type = ''user''\<rparr>],
               availabilities = [\<lparr>av_id = 1, av_slot_type = ''appointment'',
                 av_schedule = \<lparr>valid_from = 1, valid_to = 9, schedule_resource = 1\<rparr>,
                 av_slot_size_in_minutes = 20, av_tokens_per_slot = 2,
                 av_availability =
                   [\<lparr>day_of_week = 4, start_time = 64800, end_time = 68400\<rparr>]\<rparr>],
               token_slots = [], token_bookings = []\<rparr>;
        request = \<lparr>resource = ''u'', resource_type = ''user'', day = 5\<rparr>;
        s1 = \<lparr>ts_id = 1, ts_resource = 1, start_datetime = (5, 64800),
               end_datetime = (5, 66000), ts_availability_id = 1, allocated = 0\<rparr>;
        s2 = \<lparr>ts_id = 2, ts_resource = 1, start_datetime = (5, 66000),
               end_datetime = (5, 67200), ts_availability_id = 1, allocated = 0\<rparr>;
        s3 = \<lparr>ts_id = 3, ts_resource = 1, start_datetime = (5, 67200),
               end_datetime = (5, 68400), ts_availability_id = 1, allocated = 0\<rparr>;
        s4 = \<lparr>ts_id = 4, ts_resource = 1, start_datetime = (5, 66000),
               end_datetime = (5, 67200), ts_availability_id = 1, allocated = 0\<rparr>;
        s5 = \<lparr>ts_id = 5, ts_resource = 1, start_datetime = (5, 67200),
               end_datetime = (5, 68400), ts_availability_id = 1, allocated = 0\<rparr>
    in get_slots_for_day_handler 19800 st0 ''f'' request =
         Some (st0\<lparr>token_slots := [s1, s2, s3]\<rparr>, Inr [s1]) \<and>
       get_slots_for_day_handler 19800 (st0\<lparr>token_slots := [s1, s2, s3]\<rparr>) ''f'' request =
         Some (st0\<lparr>token_slots := [s1, s2, s3, s4, s5]\<rparr>, Inr [s1]))"
  by (simp add: Let_def get_slots_for_day_handler_def calculated_dow_availabilities_def
      weekday_def SlotTypeOptions_appointment_def convert_availability_to_slots_def
      while_loop.simps store_slot_def slot_key_def time_str_def two_digits_def time_of_def
      timedelta_minutes_def slots_of_day_def local_date_def TokenSlot_create_def new_id_def)

section \<open>A booking on a slot read before other bookings\<close>

text \<open>
  Claim C2 asks that every slot keeps \<open>0 \<le> allocated \<le> tokens_per_slot\<close> and that no
  operation decrements \<open>allocated\<close>. The second part fails on the code through the
  defect of claim C8: the locked body tests, increments and saves the object that the
  request read before it took the lock. Request A reads a slot of capacity 3 with
  \<open>allocated = 0\<close>; two other requests then book the slot, and its row holds
  \<open>allocated = 2\<close>; A's locked body runs last on A's object, finds 0 below 3, and
  writes \<open>allocated = 1\<close> to the row: the stored counter goes from 2 to 1 while a third
  booking is added.
\<close>

theorem stale_booking_decrements_allocated:
  "(let slot0 = \<lparr>ts_id = 1, ts_resource = 1, start_datetime = (5, 32400),
                  end_datetime = (5, 33600), ts_availability_id = 1, allocated = 0\<rparr>;
        st0 = \<lparr>users = [\<lparr>user_id = 1, user_external_id = ''u''\<rparr>],
               patients = [\<lparr>patient_id = 1, patient_external_id = ''p1''\<rparr>,
                           \<lparr>patient_id = 2, patient_external_id = ''p2''\<rparr>,
                           \<lparr>patient_id = 3, patient_external_id = ''p3''\<rparr>],
               schedulable_resources = [],
               availabilities = [\<lparr>av_id = 1, av_slot_type = ''appointment'',
                 av_schedule = \<lparr>valid_from = 1, valid_to = 9, schedule_resource = 1\<rparr>,
                 av_slot_size_in_minutes = 20, av_tokens_per_slot = 3, av_availability = []\<rparr>],
               token_slots = [slot0], token_bookings = []\<rparr>;
        usr = \<lparr>user_id = 1, user_external_id = ''u''\<rparr>;
        read_a = get_object st0 1;
        (st1, r1) = create_appointment st0 1
                      \<lparr>patient = ''p2'', booking_reason_for_visit = ''b''\<rparr> usr;
        (st2, r2) = create_appointment st1 1
                      \<lparr>patient = ''p3'', booking_reason_for_visit = ''c''\<rparr> usr;
        (st3, obj3, r3) = create_appointment_handler st2 slot0
                            \<lparr>patient = ''p1'', booking_reason_for_visit = ''a''\<rparr> usr
    in read_a = Some slot0 \<and>
       map allocated (token_slots st1) = [1] \<and>
       map allocated (token_slots st2) = [2] \<and>
       r3 = Inr \<lparr>tb_id = 3, tb_token_slot = 1, tb_patient = 1, booked_by = 1,
                 reason_for_visit = ''a'', status = ''booked''\<rparr> \<and>
       map allocated (token_slots st3) = [1] \<and>
       length (token_bookings st3) = 3)"
  by (simp add: Let_def get_object_def create_appointment_def create_appointment_handler_def
      lock_create_appointment_def save_token_slot_def new_id_def)


end
